theory Spec2Isabelle
  imports Main
begin

section \<open>Python values, exceptions and outcomes\<close>

text \<open>
  The exceptions that the modelled part of \<^verbatim>\<open>data_forms.py\<close> can raise by itself:
  an index past the end of a list, a call with the wrong number of arguments or a
  membership test on a value that is no container, and the abstract
  \<^verbatim>\<open>FieldInput.reply\<close>.
\<close>

datatype error = IndexError | TypeError | NotImplementedError

text \<open>
  A method that mutates an object either returns or raises; in both cases the
  mutations done so far stay, so both outcomes carry the state.
\<close>

datatype 's outcome = Done 's | Raised error 's

fun state_of :: "'s outcome \<Rightarrow> 's" where
  "state_of (Done s) = s"
| "state_of (Raised e s) = s"

fun returns :: "'s outcome \<Rightarrow> bool" where
  "returns (Done s) = True"
| "returns (Raised e s) = False"

text \<open>The values a field can hold: nothing, a boolean, a string or a sequence of strings.\<close>

datatype pyval = PNone | PBool bool | PStr string | PList "string list"

text \<open>\<^verbatim>\<open>bool(v)\<close>\<close>

fun py_bool :: "pyval \<Rightarrow> bool" where
  "py_bool PNone = False"
| "py_bool (PBool b) = b"
| "py_bool (PStr s) = (s \<noteq> [])"
| "py_bool (PList l) = (l \<noteq> [])"

text \<open>\<^verbatim>\<open>xs[i]\<close> for an index that is never negative.\<close>

definition py_index :: "'a list \<Rightarrow> nat \<Rightarrow> error + 'a" where
  "py_index xs i = (if i < length xs then Inr (xs ! i) else Inl IndexError)"

text \<open>\<^verbatim>\<open>s in t\<close> for two strings: \<open>s\<close> occurs in \<open>t\<close> as a contiguous piece.\<close>

fun str_contains :: "string \<Rightarrow> string \<Rightarrow> bool" where
  "str_contains [] s = (s = [])"
| "str_contains (c # t) s = (take (length s) (c # t) = s \<or> str_contains t s)"

text \<open>\<^verbatim>\<open>s in v\<close>: membership in a list, substring of a string, \<^verbatim>\<open>TypeError\<close> otherwise.\<close>

fun py_in :: "string \<Rightarrow> pyval \<Rightarrow> error + bool" where
  "py_in s (PList l) = Inr (s \<in> set l)"
| "py_in s (PStr t) = Inr (str_contains t s)"
| "py_in s PNone = Inl TypeError"
| "py_in s (PBool b) = Inl TypeError"

section \<open>Fields and forms\<close>

text \<open>
  Modelled from the spec: the field and form objects, which the XMPP library
  supplies and \<^verbatim>\<open>data_forms.py\<close> only reads and writes. A field has a type, a label,
  instructions, a value and an ordered option list of value/label pairs; a form has a
  title, instructions, a type of its own and the ordered named fields.
  \<^verbatim>\<open>getValue\<close> reads the value, \<^verbatim>\<open>setValue\<close> and \<^verbatim>\<open>setAnswer\<close> store one,
  \<^verbatim>\<open>getOptions\<close> reads the option list and \<^verbatim>\<open>delOptions\<close> empties it.
\<close>

record opt =
  ovalue :: string
  olabel :: string

record field =
  ftype :: string
  flabel :: string
  finstructions :: string
  fvalue :: pyval
  foptions :: "opt list"

record form =
  form_title :: string
  form_instructions :: string
  form_type :: string
  form_fields :: "(string \<times> field) list"

definition getValue :: "field \<Rightarrow> pyval" where
  "getValue f = fvalue f"

definition setValue :: "pyval \<Rightarrow> field \<Rightarrow> field" where
  "setValue v f = f\<lparr>fvalue := v\<rparr>"

definition setAnswer :: "pyval \<Rightarrow> field \<Rightarrow> field" where
  "setAnswer v f = f\<lparr>fvalue := v\<rparr>"

definition getOptions :: "field \<Rightarrow> opt list" where
  "getOptions f = foptions f"

definition delOptions :: "field \<Rightarrow> field" where
  "delOptions f = f\<lparr>foptions := []\<rparr>"

definition set_label :: "string \<Rightarrow> field \<Rightarrow> field" where
  "set_label l f = f\<lparr>flabel := l\<rparr>"

text \<open>
  A widget keeps a reference to its field; the form holds the same object. The
  reference is the position of the field in the form's field list, and a write
  through it updates that entry.
\<close>

definition upd_field :: "nat \<Rightarrow> (field \<Rightarrow> field) \<Rightarrow> (string \<times> field) list \<Rightarrow> (string \<times> field) list" where
  "upd_field r g fs = fs[r := (fst (fs ! r), g (snd (fs ! r)))]"

section \<open>The input widgets\<close>

text \<open>
  The transient state of each widget class:
  \<^verbatim>\<open>BooleanWin\<close> has \<^verbatim>\<open>value\<close> and \<^verbatim>\<open>last_key\<close>, \<^verbatim>\<open>ListMultiWin\<close> the
  \<^verbatim>\<open>[option, flag]\<close> pairs and \<^verbatim>\<open>val_pos\<close>, \<^verbatim>\<open>ListSingleWin\<close> the options and
  \<^verbatim>\<open>val_pos\<close>, the text widgets \<^verbatim>\<open>text\<close> and \<^verbatim>\<open>pos\<close>.
\<close>

datatype winput =
    DummyInput
  | BooleanWin bool string
  | ListMultiWin "(opt \<times> bool) list" nat
  | ListSingleWin "opt list" nat
  | TextSingleWin string nat
  | TextPrivateWin string nat

record widget =
  field_ref :: nat
  color :: nat
  win :: winput

text \<open>\<^verbatim>\<open>is_dummy\<close>: only \<^verbatim>\<open>DummyInput\<close> overrides the default \<^verbatim>\<open>False\<close>.\<close>

fun is_dummy :: "widget \<Rightarrow> bool" where
  "is_dummy w = (case win w of DummyInput \<Rightarrow> True | _ \<Rightarrow> False)"

text \<open>
  \<^verbatim>\<open>refresh\<close> draws the widget. The drawing calls are taken to succeed; what is kept
  is the list access \<^verbatim>\<open>self.options[self.val_pos]\<close> of the two list widgets, which
  raises when the cursor addresses no option.
\<close>

fun refresh :: "widget \<Rightarrow> widget outcome" where
  "refresh w = (case win w of
      ListMultiWin opts p \<Rightarrow> (if p < length opts then Done w else Raised IndexError w)
    | ListSingleWin opts p \<Rightarrow> (if p < length opts then Done w else Raised IndexError w)
    | _ \<Rightarrow> Done w)"

text \<open>\<^verbatim>\<open>FieldInput.set_color\<close>\<close>

definition set_color :: "nat \<Rightarrow> widget \<Rightarrow> widget outcome" where
  "set_color c w = refresh (w\<lparr>color := c\<rparr>)"

subsection \<open>Construction\<close>

datatype input_class =
  CBooleanWin | CDummyInput | CTextSingleWin | CListMultiWin | CListSingleWin | CTextPrivateWin

text \<open>
  The list comprehension of \<^verbatim>\<open>ListMultiWin.__init__\<close>: one pair per option, flagged
  when the option's value is in the field's value.
\<close>

fun multi_flags :: "pyval \<Rightarrow> opt list \<Rightarrow> error + (opt \<times> bool) list" where
  "multi_flags vals [] = Inr []"
| "multi_flags vals (option # rest) =
     (case py_in (ovalue option) vals of
        Inl e \<Rightarrow> Inl e
      | Inr b \<Rightarrow> (case multi_flags vals rest of
                   Inl e \<Rightarrow> Inl e
                 | Inr ps \<Rightarrow> Inr ((option, b) # ps)))"

text \<open>
  The loop of \<^verbatim>\<open>ListSingleWin.__init__\<close>: \<^verbatim>\<open>val_pos\<close> becomes the index of the last
  option whose value equals the field's value.
\<close>

fun single_pos :: "pyval \<Rightarrow> opt list \<Rightarrow> nat \<Rightarrow> nat \<Rightarrow> nat" where
  "single_pos v [] i val_pos = val_pos"
| "single_pos v (option # rest) i val_pos =
     single_pos v rest (Suc i) (if v = PStr (ovalue option) then i else val_pos)"

fun construct :: "input_class \<Rightarrow> nat \<Rightarrow> field \<Rightarrow> error + widget" where
  "construct CDummyInput r f = Inr \<lparr>field_ref = r, color = 14, win = DummyInput\<rparr>"
| "construct CBooleanWin r f =
     Inr \<lparr>field_ref = r, color = 14, win = BooleanWin (py_bool (getValue f)) ''KEY_RIGHT''\<rparr>"
| "construct CListMultiWin r f =
     (case multi_flags (getValue f) (getOptions f) of
        Inl e \<Rightarrow> Inl e
      | Inr options \<Rightarrow> Inr \<lparr>field_ref = r, color = 14, win = ListMultiWin options 0\<rparr>)"
| "construct CListSingleWin r f =
     Inr \<lparr>field_ref = r, color = 14,
          win = ListSingleWin (getOptions f) (single_pos (getValue f) (getOptions f) 0 0)\<rparr>"
| "construct CTextSingleWin r f =
     (let text = (case getValue f of PStr s \<Rightarrow> s | _ \<Rightarrow> [])
      in Inr \<lparr>field_ref = r, color = 14, win = TextSingleWin text (length text)\<rparr>)"
| "construct CTextPrivateWin r f =
     (let text = (case getValue f of PStr s \<Rightarrow> s | _ \<Rightarrow> [])
      in Inr \<lparr>field_ref = r, color = 14, win = TextPrivateWin text (length text)\<rparr>)"

subsection \<open>Keys\<close>

text \<open>
  \<^verbatim>\<open>do_command(key)\<close>, as \<^verbatim>\<open>FormWin.on_input\<close> calls it. \<^verbatim>\<open>DummyInput.do_command\<close>
  is declared with no parameter besides \<^verbatim>\<open>self\<close>, so the call with a key raises
  \<^verbatim>\<open>TypeError\<close> before the body runs. The text widgets inherit the line editor of
  \<^verbatim>\<open>windows.Input\<close>, which is a parameter here: \<open>edit key (text, pos)\<close>.
\<close>

fun do_command :: "(string \<Rightarrow> string \<times> nat \<Rightarrow> string \<times> nat) \<Rightarrow> string \<Rightarrow> widget \<Rightarrow> widget outcome" where
  "do_command edit key w = (case win w of
      DummyInput \<Rightarrow> Raised TypeError w
    | BooleanWin v last_key \<Rightarrow>
        (if key = ''KEY_LEFT'' \<or> key = ''KEY_RIGHT''
         then refresh (w\<lparr>win := BooleanWin (\<not> v) key\<rparr>)
         else refresh w)
    | ListMultiWin options val_pos \<Rightarrow>
        (if key = ''KEY_LEFT''
         then (if val_pos > 0 then refresh (w\<lparr>win := ListMultiWin options (val_pos - 1)\<rparr>)
               else refresh w)
         else if key = ''KEY_RIGHT''
         then (if int val_pos < int (length options) - 1
               then refresh (w\<lparr>win := ListMultiWin options (val_pos + 1)\<rparr>)
               else refresh w)
         else if key = '' ''
         then (case py_index options val_pos of
                 Inl e \<Rightarrow> Raised e w
               | Inr option \<Rightarrow>
                   refresh (w\<lparr>win := ListMultiWin (options[val_pos := (fst option, \<not> snd option)]) val_pos\<rparr>))
         else Done w)
    | ListSingleWin options val_pos \<Rightarrow>
        (if key = ''KEY_LEFT''
         then (if val_pos > 0 then refresh (w\<lparr>win := ListSingleWin options (val_pos - 1)\<rparr>)
               else refresh w)
         else if key = ''KEY_RIGHT''
         then (if int val_pos < int (length options) - 1
               then refresh (w\<lparr>win := ListSingleWin options (val_pos + 1)\<rparr>)
               else refresh w)
         else Done w)
    | TextSingleWin text pos \<Rightarrow>
        (case edit key (text, pos) of (text', pos') \<Rightarrow> Done (w\<lparr>win := TextSingleWin text' pos'\<rparr>))
    | TextPrivateWin text pos \<Rightarrow>
        (case edit key (text, pos) of (text', pos') \<Rightarrow> Done (w\<lparr>win := TextPrivateWin text' pos'\<rparr>)))"

subsection \<open>Reply\<close>

text \<open>
  \<^verbatim>\<open>reply\<close> writes through the field reference. \<^verbatim>\<open>DummyInput\<close> inherits
  \<^verbatim>\<open>FieldInput.reply\<close>, which raises. \<^verbatim>\<open>get_text()\<close> of the text widgets returns
  the buffer.
\<close>

fun reply :: "widget \<Rightarrow> (string \<times> field) list \<Rightarrow> (string \<times> field) list outcome" where
  "reply w fs = (case win w of
      DummyInput \<Rightarrow> Raised NotImplementedError fs
    | BooleanWin v last_key \<Rightarrow>
        Done (upd_field (field_ref w) (setAnswer (PBool v))
               (upd_field (field_ref w) (set_label []) fs))
    | ListMultiWin options val_pos \<Rightarrow>
        (let fs1 = upd_field (field_ref w) (set_label []) fs;
             fs2 = upd_field (field_ref w) delOptions fs1;
             values = [ovalue (fst option). option \<leftarrow> options, snd option]
         in Done (upd_field (field_ref w) (setAnswer (PList values)) fs2))
    | ListSingleWin options val_pos \<Rightarrow>
        (let fs1 = upd_field (field_ref w) (set_label []) fs;
             fs2 = upd_field (field_ref w) delOptions fs1
         in (case py_index options val_pos of
               Inl e \<Rightarrow> Raised e fs2
             | Inr option \<Rightarrow> Done (upd_field (field_ref w) (setAnswer (PStr (ovalue option))) fs2)))
    | TextSingleWin text pos \<Rightarrow>
        Done (upd_field (field_ref w) (setAnswer (PStr text))
               (upd_field (field_ref w) (set_label []) fs))
    | TextPrivateWin text pos \<Rightarrow>
        Done (upd_field (field_ref w) (setAnswer (PStr text))
               (upd_field (field_ref w) (set_label []) fs)))"

section \<open>FormWin\<close>

record entry =
  elabel :: pyval
  einstructions :: string
  einput :: widget

record formwin =
  fw_form :: form
  current_input :: nat
  inputs :: "entry list"

definition input_classes :: "string \<rightharpoonup> input_class" where
  "input_classes = map_of
     [(''boolean'', CBooleanWin),
      (''fixed'', CDummyInput),
      (''jid-single'', CTextSingleWin),
      (''list-multi'', CListMultiWin),
      (''list-single'', CListSingleWin),
      (''text-private'', CTextPrivateWin),
      (''text-single'', CTextSingleWin)]"

text \<open>
  The body of the loop of \<^verbatim>\<open>FormWin.__init__\<close> for one field that is not hidden: the
  field as the lookup leaves it (a type with no class gets its type name as value)
  and the new entry of \<^verbatim>\<open>inputs\<close>.
\<close>

definition make_entry :: "nat \<Rightarrow> field \<Rightarrow> error + (field \<times> entry)" where
  "make_entry r field0 =
     (case (case input_classes (ftype field0) of
              Some c \<Rightarrow> (field0, c)
            | None \<Rightarrow> (setValue (PStr (ftype field0)) field0, CTextSingleWin)) of
        (field, input_class) \<Rightarrow>
          (let instructions = finstructions field;
               label = (if ftype field = ''fixed'' then getValue field else PStr (flabel field))
           in (case construct input_class r field of
                 Inl e \<Rightarrow> Inl e
               | Inr inp \<Rightarrow> Inr (field, \<lparr>elabel = label, einstructions = instructions, einput = inp\<rparr>))))"

fun init_loop :: "nat \<Rightarrow> (string \<times> field) list \<Rightarrow> error + ((string \<times> field) list \<times> entry list)" where
  "init_loop r [] = Inr ([], [])"
| "init_loop r ((name, field) # rest) =
     (if ftype field = ''hidden''
      then (case init_loop (Suc r) rest of
              Inl e \<Rightarrow> Inl e
            | Inr (fs, es) \<Rightarrow> Inr ((name, field) # fs, es))
      else (case make_entry r field of
              Inl e \<Rightarrow> Inl e
            | Inr (field', ent) \<Rightarrow>
                (case init_loop (Suc r) rest of
                   Inl e \<Rightarrow> Inl e
                 | Inr (fs, es) \<Rightarrow> Inr ((name, field') # fs, ent # es))))"

definition FormWin_init :: "form \<Rightarrow> error + formwin" where
  "FormWin_init frm =
     (case init_loop 0 (form_fields frm) of
        Inl e \<Rightarrow> Inl e
      | Inr (fs, es) \<Rightarrow> Inr \<lparr>fw_form = frm\<lparr>form_fields := fs\<rparr>, current_input = 0, inputs = es\<rparr>)"

subsection \<open>Reply of the whole form\<close>

fun reply_loop :: "entry list \<Rightarrow> (string \<times> field) list \<Rightarrow> (string \<times> field) list outcome" where
  "reply_loop [] fs = Done fs"
| "reply_loop (inp # rest) fs =
     (if is_dummy (einput inp) then reply_loop rest fs
      else (case reply (einput inp) fs of
              Raised e fs' \<Rightarrow> Raised e fs'
            | Done fs' \<Rightarrow> reply_loop rest fs'))"

definition FormWin_reply :: "formwin \<Rightarrow> formwin outcome" where
  "FormWin_reply fw =
     (case reply_loop (inputs fw) (form_fields (fw_form fw)) of
        Raised e fs \<Rightarrow> Raised e (fw\<lparr>fw_form := (fw_form fw)\<lparr>form_fields := fs\<rparr>\<rparr>)
      | Done fs \<Rightarrow>
          Done (fw\<lparr>fw_form := (fw_form fw)\<lparr>form_fields := fs, form_title := [], form_instructions := []\<rparr>\<rparr>))"

subsection \<open>Navigation\<close>

text \<open>\<^verbatim>\<open>self.inputs[i]['input'].set_color(c)\<close>\<close>

definition set_input_color :: "nat \<Rightarrow> nat \<Rightarrow> formwin \<Rightarrow> formwin outcome" where
  "set_input_color i c fw =
     (case py_index (inputs fw) i of
        Inl e \<Rightarrow> Raised e fw
      | Inr ent \<Rightarrow>
          (case set_color c (einput ent) of
             Done w \<Rightarrow> Done (fw\<lparr>inputs := (inputs fw)[i := ent\<lparr>einput := w\<rparr>]\<rparr>)
           | Raised e w \<Rightarrow> Raised e (fw\<lparr>inputs := (inputs fw)[i := ent\<lparr>einput := w\<rparr>]\<rparr>)))"

text \<open>
  The loop of \<^verbatim>\<open>go_to_next_input\<close>:
  \<^verbatim>\<open>while cur+jump != len(inputs) - 1 and inputs[cur+jump].is_dummy(): jump += 1\<close>.
  Over the integers \<^verbatim>\<open>cur+jump != len - 1\<close> is \<open>Suc (cur + jump) \<noteq> len\<close>.
\<close>

function next_jump :: "entry list \<Rightarrow> nat \<Rightarrow> nat \<Rightarrow> error + nat" where
  "next_jump inps cur jump =
     (if Suc (cur + jump) \<noteq> length inps
      then (if cur + jump < length inps
            then (if is_dummy (einput (inps ! (cur + jump)))
                  then next_jump inps cur (jump + 1)
                  else Inr jump)
            else Inl IndexError)
      else Inr jump)"
  by pat_completeness auto
termination
  by (relation "measure (\<lambda>(inps, cur, jump). length inps - (cur + jump))") auto

text \<open>
  The loop of \<^verbatim>\<open>go_to_previous_input\<close>:
  \<^verbatim>\<open>while cur-jump > 0 and inputs[cur+jump].is_dummy(): jump += 1\<close>.
  The test reads the entry at \<^verbatim>\<open>cur+jump\<close>, as the source does.
\<close>

function prev_jump :: "entry list \<Rightarrow> nat \<Rightarrow> nat \<Rightarrow> error + nat" where
  "prev_jump inps cur jump =
     (if jump < cur
      then (if cur + jump < length inps
            then (if is_dummy (einput (inps ! (cur + jump)))
                  then prev_jump inps cur (jump + 1)
                  else Inr jump)
            else Inl IndexError)
      else Inr jump)"
  by pat_completeness auto
termination
  by (relation "measure (\<lambda>(inps, cur, jump). cur - jump)") auto

definition go_to_next_input :: "formwin \<Rightarrow> formwin outcome" where
  "go_to_next_input fw =
     (if inputs fw = [] then Done fw
      else if Suc (current_input fw) = length (inputs fw) then Done fw
      else (case set_input_color (current_input fw) 14 fw of
              Raised e fw1 \<Rightarrow> Raised e fw1
            | Done fw1 \<Rightarrow>
                (let fw2 = fw1\<lparr>current_input := current_input fw1 + 1\<rparr>
                 in (case next_jump (inputs fw2) (current_input fw2) 0 of
                       Inl e \<Rightarrow> Raised e fw2
                     | Inr jump \<Rightarrow>
                         (case py_index (inputs fw2) (current_input fw2 + jump) of
                            Inl e \<Rightarrow> Raised e fw2
                          | Inr ent \<Rightarrow>
                              (if is_dummy (einput ent) then Done fw2
                               else (let fw3 = fw2\<lparr>current_input := current_input fw2 + jump\<rparr>
                                     in set_input_color (current_input fw3) 13 fw3)))))))"

definition go_to_previous_input :: "formwin \<Rightarrow> formwin outcome" where
  "go_to_previous_input fw =
     (if inputs fw = [] then Done fw
      else if current_input fw = 0 then Done fw
      else (case set_input_color (current_input fw) 14 fw of
              Raised e fw1 \<Rightarrow> Raised e fw1
            | Done fw1 \<Rightarrow>
                (let fw2 = fw1\<lparr>current_input := current_input fw1 - 1\<rparr>
                 in (case prev_jump (inputs fw2) (current_input fw2) 0 of
                       Inl e \<Rightarrow> Raised e fw2
                     | Inr jump \<Rightarrow>
                         (case py_index (inputs fw2) (current_input fw2 + jump) of
                            Inl e \<Rightarrow> Raised e fw2
                          | Inr ent \<Rightarrow>
                              (if is_dummy (einput ent) then Done fw2
                               else (let fw3 = fw2\<lparr>current_input := current_input fw2 - jump\<rparr>
                                     in set_input_color (current_input fw3) 13 fw3)))))))"

text \<open>\<^verbatim>\<open>FormWin.on_input\<close>\<close>

definition FormWin_on_input :: "(string \<Rightarrow> string \<times> nat \<Rightarrow> string \<times> nat) \<Rightarrow> string \<Rightarrow> formwin \<Rightarrow> formwin outcome" where
  "FormWin_on_input edit key fw =
     (if inputs fw = [] then Done fw
      else (case py_index (inputs fw) (current_input fw) of
              Inl e \<Rightarrow> Raised e fw
            | Inr ent \<Rightarrow>
                (case do_command edit key (einput ent) of
                   Done w \<Rightarrow> Done (fw\<lparr>inputs := (inputs fw)[current_input fw := ent\<lparr>einput := w\<rparr>]\<rparr>)
                 | Raised e w \<Rightarrow>
                     Raised e (fw\<lparr>inputs := (inputs fw)[current_input fw := ent\<lparr>einput := w\<rparr>]\<rparr>))))"

section \<open>DataFormsTab\<close>

text \<open>
  The tab and its window share one form object, kept in the window's state. The two
  callbacks of the caller are recorded as calls with the form they receive.
  \<^verbatim>\<open>self._form.reply()\<close> is the library's own method on the form; it is the
  parameter \<open>lib_reply\<close>, acting on the form's type attribute.
\<close>

datatype event = OnCancel form | OnSend form

record tab =
  form_win :: formwin
  calls :: "event list"

definition on_cancel :: "tab \<Rightarrow> tab outcome" where
  "on_cancel t = Done (t\<lparr>calls := calls t @ [OnCancel (fw_form (form_win t))]\<rparr>)"

definition on_send :: "(string \<Rightarrow> string) \<Rightarrow> tab \<Rightarrow> tab outcome" where
  "on_send lib_reply t =
     (let fw0 = (form_win t)\<lparr>fw_form := (fw_form (form_win t))\<lparr>form_type := lib_reply (form_type (fw_form (form_win t)))\<rparr>\<rparr>
      in (case FormWin_reply fw0 of
            Raised e fw1 \<Rightarrow> Raised e (t\<lparr>form_win := fw1\<rparr>)
          | Done fw1 \<Rightarrow> Done (t\<lparr>form_win := fw1, calls := calls t @ [OnSend (fw_form fw1)]\<rparr>)))"

section \<open>Example forms\<close>

definition example_field :: "string \<Rightarrow> pyval \<Rightarrow> opt list \<Rightarrow> field" where
  "example_field t v os =
     \<lparr>ftype = t, flabel = ''label'', finstructions = [], fvalue = v, foptions = os\<rparr>"

definition example_form :: "(string \<times> field) list \<Rightarrow> form" where
  "example_form fs =
     \<lparr>form_title = ''title'', form_instructions = ''instructions'', form_type = ''form'',
      form_fields = fs\<rparr>"

definition abc_options :: "opt list" where
  "abc_options =
     [\<lparr>ovalue = ''A'', olabel = ''a''\<rparr>, \<lparr>ovalue = ''B'', olabel = ''b''\<rparr>,
      \<lparr>ovalue = ''C'', olabel = ''c''\<rparr>]"

definition abc_field :: field where
  "abc_field = example_field ''list-single'' (PStr ''C'') abc_options"

definition fixed_form :: form where
  "fixed_form = example_form [(''note'', example_field ''fixed'' (PStr ''section'') [])]"

definition fixed_fw :: formwin where
  "fixed_fw = \<lparr>fw_form = fixed_form, current_input = 0,
      inputs = [\<lparr>elabel = PStr ''section'', einstructions = [],
                 einput = \<lparr>field_ref = 0, color = 14, win = DummyInput\<rparr>\<rparr>]\<rparr>"

definition text_fixed_form :: form where
  "text_fixed_form = example_form
     [(''name'', example_field ''text-single'' (PStr ''hello'') []),
      (''note'', example_field ''fixed'' (PStr ''section'') [])]"

definition text_fixed_fw :: formwin where
  "text_fixed_fw = \<lparr>fw_form = text_fixed_form, current_input = 0,
      inputs = [\<lparr>elabel = PStr ''label'', einstructions = [],
                 einput = \<lparr>field_ref = 0, color = 14, win = TextSingleWin ''hello'' 5\<rparr>\<rparr>,
                \<lparr>elabel = PStr ''section'', einstructions = [],
                 einput = \<lparr>field_ref = 1, color = 14, win = DummyInput\<rparr>\<rparr>]\<rparr>"

text \<open>
  The answer that a widget's transient state stands for, in the spec's words: the
  boolean value; the values of the selected options in option order; the value of the
  option under the cursor; the text buffer.
\<close>

fun answer_of :: "widget \<Rightarrow> pyval" where
  "answer_of w = (case win w of
      DummyInput \<Rightarrow> PNone
    | BooleanWin v last_key \<Rightarrow> PBool v
    | ListMultiWin options val_pos \<Rightarrow> PList (map (ovalue \<circ> fst) (filter snd options))
    | ListSingleWin options val_pos \<Rightarrow> PStr (ovalue (options ! val_pos))
    | TextSingleWin text pos \<Rightarrow> PStr text
    | TextPrivateWin text pos \<Rightarrow> PStr text)"

text \<open>The cursor of a list-single widget addresses an option; other widgets always hold an answer.\<close>

fun has_answer :: "widget \<Rightarrow> bool" where
  "has_answer w = (case win w of
      ListSingleWin options val_pos \<Rightarrow> val_pos < length options
    | _ \<Rightarrow> True)"

definition custom_field :: field where
  "custom_field = example_field ''custom-x'' PNone []"

definition empty_single_field :: field where
  "empty_single_field = example_field ''list-single'' PNone []"

definition empty_single_widget :: widget where
  "empty_single_widget = \<lparr>field_ref = 0, color = 14, win = ListSingleWin [] 0\<rparr>"

text \<open>An editor that leaves the buffer alone, for the examples.\<close>

definition keep_buffer :: "string \<Rightarrow> string \<times> nat \<Rightarrow> string \<times> nat" where
  "keep_buffer key buffer = buffer"

definition empty_multi_widget :: widget where
  "empty_multi_widget = \<lparr>field_ref = 0, color = 14, win = ListMultiWin [] 0\<rparr>"

text \<open>A widget whose \<^verbatim>\<open>refresh\<close> returns: the cursor of a list widget addresses an option.\<close>

fun renderable :: "widget \<Rightarrow> bool" where
  "renderable w = (case win w of
      ListMultiWin options val_pos \<Rightarrow> val_pos < length options
    | ListSingleWin options val_pos \<Rightarrow> val_pos < length options
    | _ \<Rightarrow> True)"

text \<open>The entry list after \<^verbatim>\<open>set_color(c)\<close> on entry \<open>i\<close>.\<close>

definition recolor :: "nat \<Rightarrow> nat \<Rightarrow> entry list \<Rightarrow> entry list" where
  "recolor i c inps = inps[i := (inps ! i)\<lparr>einput := (einput (inps ! i))\<lparr>color := c\<rparr>\<rparr>]"

definition two_texts_form :: form where
  "two_texts_form = example_form
     [(''first'', example_field ''text-single'' (PStr ''a'') []),
      (''second'', example_field ''text-single'' (PStr ''b'') [])]"

definition two_texts_fw :: formwin where
  "two_texts_fw = \<lparr>fw_form = two_texts_form, current_input = 0,
      inputs = [\<lparr>elabel = PStr ''label'', einstructions = [],
                 einput = \<lparr>field_ref = 0, color = 14, win = TextSingleWin ''a'' 1\<rparr>\<rparr>,
                \<lparr>elabel = PStr ''label'', einstructions = [],
                 einput = \<lparr>field_ref = 1, color = 14, win = TextSingleWin ''b'' 1\<rparr>\<rparr>]\<rparr>"

definition text_fixed_text_form :: form where
  "text_fixed_text_form = example_form
     [(''first'', example_field ''text-single'' (PStr ''a'') []),
      (''note'', example_field ''fixed'' (PStr ''section'') []),
      (''second'', example_field ''text-single'' (PStr ''b'') [])]"

definition text_fixed_text_fw :: formwin where
  "text_fixed_text_fw = \<lparr>fw_form = text_fixed_text_form, current_input = 0,
      inputs = [\<lparr>elabel = PStr ''label'', einstructions = [],
                 einput = \<lparr>field_ref = 0, color = 14, win = TextSingleWin ''a'' 1\<rparr>\<rparr>,
                \<lparr>elabel = PStr ''section'', einstructions = [],
                 einput = \<lparr>field_ref = 1, color = 14, win = DummyInput\<rparr>\<rparr>,
                \<lparr>elabel = PStr ''label'', einstructions = [],
                 einput = \<lparr>field_ref = 2, color = 14, win = TextSingleWin ''b'' 1\<rparr>\<rparr>]\<rparr>"

definition fixed_run_form :: "string \<Rightarrow> form" where
  "fixed_run_form last_type = example_form
     [(''first'', example_field ''text-single'' (PStr ''a'') []),
      (''note1'', example_field ''fixed'' (PStr ''section'') []),
      (''note2'', example_field ''fixed'' (PStr ''section'') []),
      (''last'', example_field last_type (PStr ''b'') [])]"

text \<open>
  The reply pass in the spec's words: every widget in focus order, unless it is inert,
  replies into the field list.
\<close>

definition replied :: "entry list \<Rightarrow> (string \<times> field) list \<Rightarrow> (string \<times> field) list" where
  "replied inps fs =
     foldl (\<lambda>fs w. state_of (reply w fs)) fs [einput e. e \<leftarrow> inps, \<not> is_dummy (einput e)]"

text \<open>The positions, counted from \<open>r\<close>, of the fields that are not hidden.\<close>

fun visible_refs :: "nat \<Rightarrow> (string \<times> field) list \<Rightarrow> nat list" where
  "visible_refs r [] = []"
| "visible_refs r ((name, f) # rest) =
     (if ftype f = ''hidden'' then visible_refs (Suc r) rest else r # visible_refs (Suc r) rest)"

text \<open>
  The widgets of a window refer, in order, to the fields of its form that are not
  hidden.
\<close>

definition session_inv :: "formwin \<Rightarrow> bool" where
  "session_inv fw \<longleftrightarrow>
     map (\<lambda>e. field_ref (einput e)) (inputs fw) = visible_refs 0 (form_fields (fw_form fw))"

text \<open>Every widget that replies holds an answer.\<close>

definition answers_ready :: "formwin \<Rightarrow> bool" where
  "answers_ready fw \<longleftrightarrow> list_all (\<lambda>e. is_dummy (einput e) \<or> has_answer (einput e)) (inputs fw)"

text \<open>
  The data model's condition on a field set that the reply pass depends on: a
  list-single field has at least one option.
\<close>

definition well_formed :: "form \<Rightarrow> bool" where
  "well_formed frm \<longleftrightarrow>
     list_all (\<lambda>(name, f). ftype f = ''list-single'' \<longrightarrow> getOptions f \<noteq> []) (form_fields frm)"

text \<open>
  The window states of a session on a form: the constructed window, and the state
  after each navigation call or key, whether the call returned or raised.
\<close>

inductive session_state :: "form \<Rightarrow> formwin \<Rightarrow> bool" for frm :: form where
  constructed: "FormWin_init frm = Inr fw \<Longrightarrow> session_state frm fw"
| after_next: "session_state frm fw \<Longrightarrow> session_state frm (state_of (go_to_next_input fw))"
| after_previous: "session_state frm fw \<Longrightarrow> session_state frm (state_of (go_to_previous_input fw))"
| after_key: "session_state frm fw \<Longrightarrow> session_state frm (state_of (FormWin_on_input edit key fw))"

text \<open>Two window states with the same form and the same widgets up to their colours.\<close>

definition same_widgets :: "formwin \<Rightarrow> formwin \<Rightarrow> bool" where
  "same_widgets fw fw' \<longleftrightarrow>
     fw_form fw' = fw_form fw
     \<and> map (\<lambda>e. field_ref (einput e)) (inputs fw') = map (\<lambda>e. field_ref (einput e)) (inputs fw)
     \<and> map (\<lambda>e. win (einput e)) (inputs fw') = map (\<lambda>e. win (einput e)) (inputs fw)"

text \<open>The library's reply on a form of type form, for the examples.\<close>

definition submit_type :: "string \<Rightarrow> string" where
  "submit_type ty = (if ty = ''form'' then ''submit'' else ty)"

definition hello_form :: form where
  "hello_form = example_form
     [(''secret'', example_field ''hidden'' (PStr ''h'') []),
      (''note'', example_field ''fixed'' (PStr ''section'') []),
      (''name'', example_field ''text-single'' (PStr ''hello'') [])]"

definition hello_fw :: formwin where
  "hello_fw = \<lparr>fw_form = hello_form, current_input = 0,
      inputs = [\<lparr>elabel = PStr ''section'', einstructions = [],
                 einput = \<lparr>field_ref = 1, color = 14, win = DummyInput\<rparr>\<rparr>,
                \<lparr>elabel = PStr ''label'', einstructions = [],
                 einput = \<lparr>field_ref = 2, color = 14, win = TextSingleWin ''hello'' 5\<rparr>\<rparr>]\<rparr>"

definition empty_single_form :: form where
  "empty_single_form = example_form [(''choice'', empty_single_field)]"

definition empty_single_fw :: formwin where
  "empty_single_fw = \<lparr>fw_form = empty_single_form, current_input = 0,
      inputs = [\<lparr>elabel = PStr ''label'', einstructions = [], einput = empty_single_widget\<rparr>]\<rparr>"

section \<open>Writes through a field reference\<close>

lemma upd_field_length [simp]: "length (upd_field r g fs) = length fs"
  by (simp add: upd_field_def)

lemma upd_field_nth_same [simp]:
  "r < length fs \<Longrightarrow> upd_field r g fs ! r = (fst (fs ! r), g (snd (fs ! r)))"
  by (simp add: upd_field_def)

lemma upd_field_nth_other [simp]: "i \<noteq> r \<Longrightarrow> upd_field r g fs ! i = fs ! i"
  by (simp add: upd_field_def)

lemma selected_values:
  "[ovalue (fst option). option \<leftarrow> options, snd option] = map (ovalue \<circ> fst) (filter snd options)"
  by (induction options) simp_all

section \<open>Cancel\<close>

text \<open>
  C8. The cancel command returns, hands the form to the \<^verbatim>\<open>on_cancel\<close> callback and
  changes nothing else: the window with its form (title, instructions, every field's
  value, label and options) and its widgets is the one before the call.
\<close>

theorem on_cancel_frame:
  "on_cancel t = Done (t\<lparr>calls := calls t @ [OnCancel (fw_form (form_win t))]\<rparr>)
   \<and> form_win (state_of (on_cancel t)) = form_win t
   \<and> calls (state_of (on_cancel t)) = calls t @ [OnCancel (fw_form (form_win t))]"
  by (simp add: on_cancel_def)

section \<open>Reply of the list widgets\<close>

text \<open>
  C6. \<^verbatim>\<open>ListMultiWin.reply\<close> returns; afterwards the field's option list is empty and
  its value is the sequence of the values of the flagged options, in the order of the
  option list. No other field changes.
\<close>

theorem ListMultiWin_reply_answer:
  assumes "win w = ListMultiWin options val_pos" and "field_ref w < length fs"
  shows "\<exists>fs'. reply w fs = Done fs' \<and> length fs' = length fs
           \<and> foptions (snd (fs' ! field_ref w)) = []
           \<and> fvalue (snd (fs' ! field_ref w)) = PList (map (ovalue \<circ> fst) (filter snd options))
           \<and> (\<forall>i. i \<noteq> field_ref w \<longrightarrow> fs' ! i = fs ! i)"
  using assms
  by (simp add: setAnswer_def delOptions_def set_label_def Let_def selected_values)

text \<open>
  The widget built from options A, B, C and the value sequence C, A has the flags
  true, false, true and replies A, C.
\<close>

theorem ListMultiWin_reply_answer_witness:
  "\<exists>w fs'. construct CListMultiWin 0 (example_field ''list-multi'' (PList [''C'', ''A'']) abc_options) = Inr w
     \<and> win w = ListMultiWin [(abc_options ! 0, True), (abc_options ! 1, False), (abc_options ! 2, True)] 0
     \<and> reply w [(''f'', example_field ''list-multi'' (PList [''C'', ''A'']) abc_options)] = Done fs'
     \<and> foptions (snd (fs' ! 0)) = []
     \<and> fvalue (snd (fs' ! 0)) = PList [''A'', ''C'']"
proof -
  let ?f = "example_field ''list-multi'' (PList [''C'', ''A'']) abc_options"
  let ?w = "\<lparr>field_ref = 0, color = 14,
             win = ListMultiWin [(abc_options ! 0, True), (abc_options ! 1, False), (abc_options ! 2, True)] 0\<rparr>"
  have c: "construct CListMultiWin 0 ?f = Inr ?w"
    by (simp add: example_field_def abc_options_def getValue_def getOptions_def)
  have h1: "win ?w = ListMultiWin [(abc_options ! 0, True), (abc_options ! 1, False), (abc_options ! 2, True)] 0"
    by simp
  have h2: "field_ref ?w < length [(''f'', ?f)]" by simp
  from ListMultiWin_reply_answer [OF h1 h2]
  obtain fs' where "reply ?w [(''f'', ?f)] = Done fs'" "foptions (snd (fs' ! 0)) = []"
     "fvalue (snd (fs' ! 0)) = PList [''A'', ''C'']"
    by (auto simp: abc_options_def)
  with c h1 show ?thesis by blast
qed

text \<open>
  C7. \<^verbatim>\<open>ListSingleWin.reply\<close> with the cursor on option \<open>i\<close> of a non-empty option list
  returns; afterwards the field's option list is empty and its value is the value of
  option \<open>i\<close>. No other field changes.
\<close>

theorem ListSingleWin_reply_answer:
  assumes "win w = ListSingleWin options i" and "i < length options" and "field_ref w < length fs"
  shows "\<exists>fs'. reply w fs = Done fs' \<and> length fs' = length fs
           \<and> foptions (snd (fs' ! field_ref w)) = []
           \<and> fvalue (snd (fs' ! field_ref w)) = PStr (ovalue (options ! i))
           \<and> (\<forall>j. j \<noteq> field_ref w \<longrightarrow> fs' ! j = fs ! j)"
  using assms
  by (simp add: setAnswer_def delOptions_def set_label_def Let_def py_index_def)

text \<open>
  The widget built from options A, B, C and the value C has its cursor at index 2 and
  replies C.
\<close>

theorem ListSingleWin_reply_answer_witness:
  "construct CListSingleWin 0 abc_field = Inr \<lparr>field_ref = 0, color = 14, win = ListSingleWin abc_options 2\<rparr>
   \<and> (\<exists>fs'. reply \<lparr>field_ref = 0, color = 14, win = ListSingleWin abc_options 2\<rparr> [(''f'', abc_field)] = Done fs'
     \<and> foptions (snd (fs' ! 0)) = []
     \<and> fvalue (snd (fs' ! 0)) = PStr ''C'')"
proof -
  let ?w = "\<lparr>field_ref = 0, color = 14, win = ListSingleWin abc_options 2\<rparr>"
  have c: "construct CListSingleWin 0 abc_field = Inr ?w"
    by (simp add: abc_field_def example_field_def abc_options_def getValue_def getOptions_def)
  have h1: "win ?w = ListSingleWin abc_options 2" by simp
  have h2: "2 < length abc_options" by (simp add: abc_options_def)
  have h3: "field_ref ?w < length [(''f'', abc_field)]" by simp
  from ListSingleWin_reply_answer [OF h1 h2 h3]
  obtain fs' where "reply ?w [(''f'', abc_field)] = Done fs'" "foptions (snd (fs' ! 0)) = []"
     "fvalue (snd (fs' ! 0)) = PStr ''C''"
    by (auto simp: abc_options_def)
  with c show ?thesis by blast
qed

section \<open>Keys on the inert widget\<close>

text \<open>
  C3. A form whose only field is of type fixed has the inert widget in focus. A key
  sent to the window then does not return: the call \<^verbatim>\<open>do_command(key)\<close> raises
  \<^verbatim>\<open>TypeError\<close>. The state is left as it was.
\<close>

theorem DummyInput_key_raises:
  "FormWin_init fixed_form = Inr fixed_fw
   \<and> is_dummy (einput (inputs fixed_fw ! current_input fixed_fw))
   \<and> FormWin_on_input keep_buffer ''a'' fixed_fw = Raised TypeError fixed_fw"
  by (simp add: FormWin_init_def fixed_form_def fixed_fw_def example_form_def example_field_def
      make_entry_def input_classes_def getValue_def FormWin_on_input_def py_index_def)

section \<open>The focus index\<close>

text \<open>
  C1. In the form with a text-single field followed by a fixed field,
  \<^verbatim>\<open>go_to_next_input\<close> returns with the focus index on the inert widget at index 1,
  although the widget at index 0 is not inert.
\<close>

theorem focus_rests_on_inert:
  "FormWin_init text_fixed_form = Inr text_fixed_fw
   \<and> returns (go_to_next_input text_fixed_fw)
   \<and> current_input (state_of (go_to_next_input text_fixed_fw)) = 1
   \<and> is_dummy (einput (inputs (state_of (go_to_next_input text_fixed_fw)) ! 1))
   \<and> \<not> is_dummy (einput (inputs (state_of (go_to_next_input text_fixed_fw)) ! 0))"
  by (simp add: FormWin_init_def text_fixed_form_def text_fixed_fw_def example_form_def example_field_def
      make_entry_def input_classes_def getValue_def go_to_next_input_def py_index_def
      set_input_color_def set_color_def Let_def)

section \<open>Unrecognized field types\<close>

text \<open>
  C9. A field whose type has no widget class and is not hidden does not make the
  construction fail: the loop body returns, the window of a form with this one field
  is built, the field's widget is a \<^verbatim>\<open>TextSingleWin\<close> whose buffer is the type name
  with the cursor at its end, and the reply of the unedited widget returns and stores
  the type name as the field's value.
\<close>

theorem unrecognized_type_falls_back:
  assumes "input_classes (ftype f) = None" and "ftype f \<noteq> ''hidden''"
  shows "make_entry r f =
           Inr (setValue (PStr (ftype f)) f,
                \<lparr>elabel = PStr (flabel f), einstructions = finstructions f,
                 einput = \<lparr>field_ref = r, color = 14, win = TextSingleWin (ftype f) (length (ftype f))\<rparr>\<rparr>)
       \<and> FormWin_init (frm\<lparr>form_fields := [(name, f)]\<rparr>) =
           Inr \<lparr>fw_form = frm\<lparr>form_fields := [(name, setValue (PStr (ftype f)) f)]\<rparr>,
                current_input = 0,
                inputs = [\<lparr>elabel = PStr (flabel f), einstructions = finstructions f,
                           einput = \<lparr>field_ref = 0, color = 14, win = TextSingleWin (ftype f) (length (ftype f))\<rparr>\<rparr>]\<rparr>
       \<and> (r < length fs \<longrightarrow>
            returns (reply \<lparr>field_ref = r, color = 14, win = TextSingleWin (ftype f) (length (ftype f))\<rparr> fs)
            \<and> fvalue (snd (state_of (reply \<lparr>field_ref = r, color = 14, win = TextSingleWin (ftype f) (length (ftype f))\<rparr> fs) ! r))
                = PStr (ftype f))"
proof -
  have nf: "ftype f \<noteq> ''fixed''"
    using assms(1) by (auto simp: input_classes_def)
  have me: "make_entry r f =
           Inr (setValue (PStr (ftype f)) f,
                \<lparr>elabel = PStr (flabel f), einstructions = finstructions f,
                 einput = \<lparr>field_ref = r, color = 14, win = TextSingleWin (ftype f) (length (ftype f))\<rparr>\<rparr>)" for r
    using assms(1) nf by (simp add: make_entry_def setValue_def getValue_def Let_def)
  have fi: "FormWin_init (frm\<lparr>form_fields := [(name, f)]\<rparr>) =
           Inr \<lparr>fw_form = frm\<lparr>form_fields := [(name, setValue (PStr (ftype f)) f)]\<rparr>,
                current_input = 0,
                inputs = [\<lparr>elabel = PStr (flabel f), einstructions = finstructions f,
                           einput = \<lparr>field_ref = 0, color = 14, win = TextSingleWin (ftype f) (length (ftype f))\<rparr>\<rparr>]\<rparr>"
    using assms(2) by (simp add: FormWin_init_def me)
  have rp: "r < length fs \<longrightarrow>
            returns (reply \<lparr>field_ref = r, color = 14, win = TextSingleWin (ftype f) (length (ftype f))\<rparr> fs)
            \<and> fvalue (snd (state_of (reply \<lparr>field_ref = r, color = 14, win = TextSingleWin (ftype f) (length (ftype f))\<rparr> fs) ! r))
                = PStr (ftype f)"
    by (simp add: setAnswer_def)
  from me fi rp show ?thesis by blast
qed

theorem unrecognized_type_falls_back_witness:
  "input_classes (ftype custom_field) = None \<and> ftype custom_field \<noteq> ''hidden''
   \<and> FormWin_init (example_form [(''x'', custom_field)]) =
       Inr \<lparr>fw_form = example_form [(''x'', custom_field\<lparr>fvalue := PStr ''custom-x''\<rparr>)],
            current_input = 0,
            inputs = [\<lparr>elabel = PStr ''label'', einstructions = [],
                       einput = \<lparr>field_ref = 0, color = 14, win = TextSingleWin ''custom-x'' 8\<rparr>\<rparr>]\<rparr>
   \<and> fvalue (snd (state_of (reply \<lparr>field_ref = 0, color = 14, win = TextSingleWin ''custom-x'' 8\<rparr>
                      [(''x'', custom_field\<lparr>fvalue := PStr ''custom-x''\<rparr>)]) ! 0)) = PStr ''custom-x''"
proof -
  have h1: "input_classes (ftype custom_field) = None"
    by (simp add: custom_field_def example_field_def input_classes_def)
  have h2: "ftype custom_field \<noteq> ''hidden''"
    by (simp add: custom_field_def example_field_def)
  have h3: "0 < length [(''x'', custom_field\<lparr>fvalue := PStr ''custom-x''\<rparr>)]" by simp
  have t: "ftype custom_field = ''custom-x''" "flabel custom_field = ''label''"
      "finstructions custom_field = []"
    by (simp_all add: custom_field_def example_field_def)
  from unrecognized_type_falls_back [OF h1 h2, where r = 0 and frm = "example_form []"
      and name = "''x''" and fs = "[(''x'', custom_field\<lparr>fvalue := PStr ''custom-x''\<rparr>)]"] h1 h2
  show ?thesis
    by (simp add: t setValue_def example_form_def)
qed

section \<open>Reply clears the label\<close>

text \<open>
  C10, as stated, fails: the window built on a form whose only field is a list-single
  field with no options has one widget, which is not inert; its reply clears the label
  but raises \<^verbatim>\<open>IndexError\<close> before it stores an answer, so the field's value stays as
  it was (none).
\<close>

theorem reply_without_option_commits_nothing:
  "FormWin_init empty_single_form = Inr empty_single_fw
   \<and> einput (inputs empty_single_fw ! 0) = empty_single_widget
   \<and> \<not> is_dummy empty_single_widget
   \<and> reply empty_single_widget (form_fields (fw_form empty_single_fw))
       = Raised IndexError [(''choice'', empty_single_field\<lparr>flabel := []\<rparr>)]
   \<and> fvalue (snd (state_of (reply empty_single_widget (form_fields (fw_form empty_single_fw))) ! 0))
       = PNone"
  by (simp add: FormWin_init_def empty_single_form_def empty_single_fw_def empty_single_field_def
      empty_single_widget_def example_form_def example_field_def make_entry_def input_classes_def
      getValue_def getOptions_def upd_field_def set_label_def delOptions_def py_index_def)

text \<open>
  C10, amended. The reply of every widget that is not inert leaves the field's label
  empty, whether it returns or raises. When the widget holds an answer (any boolean,
  list-multi or text widget, and a list-single widget whose cursor addresses an option)
  the reply returns and the field's value is that answer. Otherwise (a list-single
  widget with no option under its cursor) the reply raises \<^verbatim>\<open>IndexError\<close> and the
  field's value is as it was. No other field changes.
\<close>

theorem reply_clears_label:
  assumes "\<not> is_dummy w" and "field_ref w < length fs"
  shows "flabel (snd (state_of (reply w fs) ! field_ref w)) = []
       \<and> (has_answer w \<longrightarrow>
            returns (reply w fs) \<and> fvalue (snd (state_of (reply w fs) ! field_ref w)) = answer_of w)
       \<and> (\<not> has_answer w \<longrightarrow>
            reply w fs = Raised IndexError (state_of (reply w fs))
            \<and> fvalue (snd (state_of (reply w fs) ! field_ref w)) = fvalue (snd (fs ! field_ref w)))
       \<and> length (state_of (reply w fs)) = length fs
       \<and> (\<forall>j. j \<noteq> field_ref w \<longrightarrow> state_of (reply w fs) ! j = fs ! j)"
  using assms
  by (cases "win w")
     (simp_all add: setAnswer_def delOptions_def set_label_def Let_def py_index_def selected_values)

text \<open>
  A boolean widget holding true, on a field whose value was false: the reply clears
  the label and stores true.
\<close>

theorem reply_clears_label_witness:
  "\<not> is_dummy \<lparr>field_ref = 0, color = 14, win = BooleanWin True ''KEY_LEFT''\<rparr>
   \<and> has_answer \<lparr>field_ref = 0, color = 14, win = BooleanWin True ''KEY_LEFT''\<rparr>
   \<and> flabel (snd (state_of (reply \<lparr>field_ref = 0, color = 14, win = BooleanWin True ''KEY_LEFT''\<rparr>
                       [(''b'', example_field ''boolean'' (PBool False) [])]) ! 0)) = []
   \<and> fvalue (snd (state_of (reply \<lparr>field_ref = 0, color = 14, win = BooleanWin True ''KEY_LEFT''\<rparr>
                       [(''b'', example_field ''boolean'' (PBool False) [])]) ! 0)) = PBool True"
proof -
  let ?w = "\<lparr>field_ref = 0, color = 14, win = BooleanWin True ''KEY_LEFT''\<rparr>"
  let ?fs = "[(''b'', example_field ''boolean'' (PBool False) [])]"
  have h1: "\<not> is_dummy ?w" by simp
  have h2: "field_ref ?w < length ?fs" by simp
  have h3: "has_answer ?w" by simp
  from reply_clears_label [OF h1 h2] h1 h3 show ?thesis by simp
qed

section \<open>List fields without options\<close>

text \<open>
  C4, as stated, fails: the widget of a list-single field with no options is built
  with an empty option list, but its reply raises \<^verbatim>\<open>IndexError\<close> (after clearing the
  label), and the left key raises too when the widget is drawn again.
\<close>

theorem empty_list_single_reply_raises:
  "getOptions empty_single_field = []
   \<and> construct CListSingleWin 0 empty_single_field = Inr empty_single_widget
   \<and> reply empty_single_widget [(''choice'', empty_single_field)]
       = Raised IndexError [(''choice'', empty_single_field\<lparr>flabel := []\<rparr>)]
   \<and> do_command keep_buffer ''KEY_LEFT'' empty_single_widget
       = Raised IndexError empty_single_widget"
  by (simp add: empty_single_field_def empty_single_widget_def example_field_def getOptions_def
      getValue_def upd_field_def set_label_def delOptions_def py_index_def)

text \<open>
  C4, amended. For a list-single or list-multi field with no options the widget is
  built with an empty option list and the cursor at 0, and no key changes it. On the
  list-multi widget the keys left, right and space raise \<^verbatim>\<open>IndexError\<close> and every
  other key returns; on the list-single widget left and right raise \<^verbatim>\<open>IndexError\<close>
  and every other key returns. The reply of the list-multi widget returns, with the
  label and the option list cleared and the empty sequence as the value; the reply of
  the list-single widget raises \<^verbatim>\<open>IndexError\<close>, with the label and the option list
  cleared and the value as it was. No other field changes.
\<close>

theorem empty_options_behaviour:
  assumes "getOptions f = []"
  shows "construct CListMultiWin r f = Inr \<lparr>field_ref = r, color = 14, win = ListMultiWin [] 0\<rparr>
       \<and> construct CListSingleWin r f = Inr \<lparr>field_ref = r, color = 14, win = ListSingleWin [] 0\<rparr>
       \<and> do_command edit key \<lparr>field_ref = r, color = 14, win = ListMultiWin [] 0\<rparr>
            = (if key = ''KEY_LEFT'' \<or> key = ''KEY_RIGHT'' \<or> key = '' ''
               then Raised IndexError \<lparr>field_ref = r, color = 14, win = ListMultiWin [] 0\<rparr>
               else Done \<lparr>field_ref = r, color = 14, win = ListMultiWin [] 0\<rparr>)
       \<and> do_command edit key \<lparr>field_ref = r, color = 14, win = ListSingleWin [] 0\<rparr>
            = (if key = ''KEY_LEFT'' \<or> key = ''KEY_RIGHT''
               then Raised IndexError \<lparr>field_ref = r, color = 14, win = ListSingleWin [] 0\<rparr>
               else Done \<lparr>field_ref = r, color = 14, win = ListSingleWin [] 0\<rparr>)
       \<and> (r < length fs \<longrightarrow>
            reply \<lparr>field_ref = r, color = 14, win = ListMultiWin [] 0\<rparr> fs
              = Done (fs[r := (fst (fs ! r),
                               (snd (fs ! r))\<lparr>flabel := [], foptions := [], fvalue := PList []\<rparr>)])
            \<and> reply \<lparr>field_ref = r, color = 14, win = ListSingleWin [] 0\<rparr> fs
              = Raised IndexError
                  (fs[r := (fst (fs ! r), (snd (fs ! r))\<lparr>flabel := [], foptions := []\<rparr>)]))"
proof -
  have c: "construct CListMultiWin r f = Inr \<lparr>field_ref = r, color = 14, win = ListMultiWin [] 0\<rparr>"
      "construct CListSingleWin r f = Inr \<lparr>field_ref = r, color = 14, win = ListSingleWin [] 0\<rparr>"
    using assms by simp_all
  have k: "do_command edit key \<lparr>field_ref = r, color = 14, win = ListMultiWin [] 0\<rparr>
            = (if key = ''KEY_LEFT'' \<or> key = ''KEY_RIGHT'' \<or> key = '' ''
               then Raised IndexError \<lparr>field_ref = r, color = 14, win = ListMultiWin [] 0\<rparr>
               else Done \<lparr>field_ref = r, color = 14, win = ListMultiWin [] 0\<rparr>)"
      "do_command edit key \<lparr>field_ref = r, color = 14, win = ListSingleWin [] 0\<rparr>
            = (if key = ''KEY_LEFT'' \<or> key = ''KEY_RIGHT''
               then Raised IndexError \<lparr>field_ref = r, color = 14, win = ListSingleWin [] 0\<rparr>
               else Done \<lparr>field_ref = r, color = 14, win = ListSingleWin [] 0\<rparr>)"
    by (simp_all add: py_index_def)
  have p: "r < length fs \<longrightarrow>
            reply \<lparr>field_ref = r, color = 14, win = ListMultiWin [] 0\<rparr> fs
              = Done (fs[r := (fst (fs ! r),
                               (snd (fs ! r))\<lparr>flabel := [], foptions := [], fvalue := PList []\<rparr>)])
            \<and> reply \<lparr>field_ref = r, color = 14, win = ListSingleWin [] 0\<rparr> fs
              = Raised IndexError
                  (fs[r := (fst (fs ! r), (snd (fs ! r))\<lparr>flabel := [], foptions := []\<rparr>)])"
    by (simp add: upd_field_def setAnswer_def delOptions_def set_label_def Let_def py_index_def)
  from c k p show ?thesis by blast
qed

text \<open>
  The field with no options: both widgets are built; space raises on the list-multi
  widget and returns on the list-single one; the list-multi reply stores the empty
  sequence; the list-single reply raises with the label cleared.
\<close>

theorem empty_options_behaviour_witness:
  "getOptions empty_single_field = []
   \<and> construct CListMultiWin 0 empty_single_field = Inr empty_multi_widget
   \<and> construct CListSingleWin 0 empty_single_field = Inr empty_single_widget
   \<and> do_command keep_buffer '' '' empty_multi_widget = Raised IndexError empty_multi_widget
   \<and> do_command keep_buffer '' '' empty_single_widget = Done empty_single_widget
   \<and> reply empty_multi_widget [(''choice'', empty_single_field)]
       = Done [(''choice'', empty_single_field\<lparr>flabel := [], fvalue := PList []\<rparr>)]
   \<and> reply empty_single_widget [(''choice'', empty_single_field)]
       = Raised IndexError [(''choice'', empty_single_field\<lparr>flabel := []\<rparr>)]"
proof -
  have h: "getOptions empty_single_field = []"
    by (simp add: empty_single_field_def example_field_def getOptions_def)
  have l: "(0::nat) < length [(''choice'', empty_single_field)]" by simp
  have o: "empty_single_field\<lparr>flabel := [], foptions := []\<rparr> = empty_single_field\<lparr>flabel := []\<rparr>"
      "empty_single_field\<lparr>flabel := [], foptions := [], fvalue := PList []\<rparr>
         = empty_single_field\<lparr>flabel := [], fvalue := PList []\<rparr>"
    by (simp_all add: empty_single_field_def example_field_def)
  from empty_options_behaviour [OF h, where r = 0 and edit = keep_buffer and key = "'' ''"
      and fs = "[(''choice'', empty_single_field)]"] h l
  show ?thesis
    by (simp add: empty_multi_widget_def empty_single_widget_def o
        del: do_command.simps reply.simps construct.simps)
qed

section \<open>Navigation\<close>

declare next_jump.simps [simp del] prev_jump.simps [simp del]

lemma recolor_length [simp]: "length (recolor i c inps) = length inps"
  by (simp add: recolor_def)

lemma recolor_win [simp]: "win (einput (recolor i c inps ! j)) = win (einput (inps ! j))"
  by (cases "i < length inps"; cases "j = i") (simp_all add: recolor_def not_less list_update_beyond)

lemma set_color_renderable: "renderable w \<Longrightarrow> set_color c w = Done (w\<lparr>color := c\<rparr>)"
  by (cases "win w") (simp_all add: set_color_def)

lemma set_input_color_renderable:
  assumes "i < length (inputs fw)" and "renderable (einput (inputs fw ! i))"
  shows "set_input_color i c fw = Done (fw\<lparr>inputs := recolor i c (inputs fw)\<rparr>)"
  using assms
  by (simp add: set_input_color_def py_index_def set_color_renderable recolor_def)

lemma next_jump_stop:
  "cur + jump < length inps \<Longrightarrow> \<not> is_dummy (einput (inps ! (cur + jump)))
   \<Longrightarrow> next_jump inps cur jump = Inr jump"
  by (subst next_jump.simps) simp

lemma next_jump_step:
  "Suc (cur + jump) < length inps \<Longrightarrow> is_dummy (einput (inps ! (cur + jump)))
   \<Longrightarrow> next_jump inps cur jump = next_jump inps cur (Suc jump)"
  by (subst next_jump.simps) simp

lemma prev_jump_stop:
  "cur + jump < length inps \<Longrightarrow> \<not> is_dummy (einput (inps ! (cur + jump)))
   \<Longrightarrow> prev_jump inps cur jump = Inr jump"
  by (subst prev_jump.simps) simp

lemma prev_jump_step:
  "jump < cur \<Longrightarrow> cur + jump < length inps \<Longrightarrow> is_dummy (einput (inps ! (cur + jump)))
   \<Longrightarrow> prev_jump inps cur jump = prev_jump inps cur (Suc jump)"
  by (subst prev_jump.simps) simp

lemma prev_jump_end: "\<not> jump < cur \<Longrightarrow> prev_jump inps cur jump = Inr jump"
  by (subst prev_jump.simps) simp

text \<open>
  The forward scan stops at the first widget after the focus that is not inert.
\<close>

lemma next_jump_scan:
  assumes "cur + jump \<le> p" and "p < length inps"
    and "\<forall>j. cur + jump \<le> j \<and> j < p \<longrightarrow> is_dummy (einput (inps ! j))"
    and "\<not> is_dummy (einput (inps ! p))"
  shows "next_jump inps cur jump = Inr (p - cur)"
  using assms
proof (induction "p - (cur + jump)" arbitrary: jump)
  case 0
  then have "cur + jump = p" by simp
  with 0 show ?case using next_jump_stop [of cur jump inps] by auto
next
  case (Suc n)
  then have lt: "cur + jump < p" by simp
  with Suc.prems have d: "is_dummy (einput (inps ! (cur + jump)))" by simp
  from lt Suc.prems have "Suc (cur + jump) < length inps" by simp
  then have "next_jump inps cur jump = next_jump inps cur (Suc jump)"
    using d by (rule next_jump_step)
  also have "\<dots> = Inr (p - cur)"
  proof (rule Suc.hyps(1))
    show "n = p - (cur + Suc jump)" using Suc.hyps(2) by simp
    show "cur + Suc jump \<le> p" using lt by simp
    show "p < length inps" by (rule Suc.prems(2))
    show "\<forall>j. cur + Suc jump \<le> j \<and> j < p \<longrightarrow> is_dummy (einput (inps ! j))"
      using Suc.prems(3) by simp
    show "\<not> is_dummy (einput (inps ! p))" by (rule Suc.prems(4))
  qed
  finally show ?case .
qed

text \<open>
  \<^verbatim>\<open>go_to_next_input\<close> with a widget that is not inert somewhere after the focus:
  the focus moves to the first such widget.
\<close>

lemma go_to_next_input_lands:
  assumes "current_input fw < p" and "p < length (inputs fw)"
    and "\<forall>j. current_input fw < j \<and> j < p \<longrightarrow> is_dummy (einput (inputs fw ! j))"
    and "\<not> is_dummy (einput (inputs fw ! p))"
    and "renderable (einput (inputs fw ! current_input fw))"
    and "renderable (einput (inputs fw ! p))"
  shows "go_to_next_input fw =
           Done (fw\<lparr>current_input := p,
                    inputs := recolor p 13 (recolor (current_input fw) 14 (inputs fw))\<rparr>)"
proof -
  let ?i = "current_input fw"
  let ?inps1 = "recolor ?i 14 (inputs fw)"
  have ne: "inputs fw \<noteq> []" using assms(2) by auto
  have nl: "Suc ?i \<noteq> length (inputs fw)" using assms(1,2) by simp
  have s1: "set_input_color ?i 14 fw = Done (fw\<lparr>inputs := ?inps1\<rparr>)"
    using assms(1,2,5) by (simp add: set_input_color_renderable)
  have nj: "next_jump ?inps1 (Suc ?i) 0 = Inr (p - Suc ?i)"
    using assms(1-4) by (intro next_jump_scan) (simp_all add: Suc_le_eq)
  have ix: "Suc (?i + (p - Suc ?i)) = p" using assms(1) by simp
  have s2: "set_input_color p 13 (fw\<lparr>inputs := ?inps1, current_input := p\<rparr>)
      = Done (fw\<lparr>inputs := ?inps1, current_input := p\<rparr>\<lparr>inputs := recolor p 13 ?inps1\<rparr>)"
    using assms(2,6) by (simp add: set_input_color_renderable)
  show ?thesis
    using ne nl assms(2,4)
    by (simp add: go_to_next_input_def s1 nj ix py_index_def Let_def s2)
qed


text \<open>
  \<^verbatim>\<open>go_to_previous_input\<close> when the widget before the focus is not inert: the focus
  moves there.
\<close>

lemma go_to_previous_input_direct:
  assumes "current_input fw = Suc i" and "Suc i < length (inputs fw)"
    and "\<not> is_dummy (einput (inputs fw ! i))"
    and "renderable (einput (inputs fw ! Suc i))"
    and "renderable (einput (inputs fw ! i))"
  shows "go_to_previous_input fw =
           Done (fw\<lparr>current_input := i, inputs := recolor i 13 (recolor (Suc i) 14 (inputs fw))\<rparr>)"
proof -
  let ?inps1 = "recolor (Suc i) 14 (inputs fw)"
  have ne: "inputs fw \<noteq> []" using assms(2) by auto
  have s1: "set_input_color (Suc i) 14 fw = Done (fw\<lparr>inputs := ?inps1\<rparr>)"
    using assms(2,4) by (simp add: set_input_color_renderable)
  have pj: "prev_jump ?inps1 i 0 = Inr 0"
    using assms(2,3) by (intro prev_jump_stop) simp_all
  have s2: "set_input_color i 13 (fw\<lparr>inputs := ?inps1, current_input := i\<rparr>)
      = Done (fw\<lparr>inputs := ?inps1, current_input := i\<rparr>\<lparr>inputs := recolor i 13 ?inps1\<rparr>)"
    using assms(2,5) by (simp add: set_input_color_renderable)
  show ?thesis
    using ne assms(1,2,3)
    by (simp add: go_to_previous_input_def s1 pj py_index_def Let_def s2)
qed

text \<open>
  \<^verbatim>\<open>go_to_previous_input\<close> from a widget that is not inert, over one inert widget:
  the scan reads the widget it started from and the focus moves back by two.
\<close>

lemma go_to_previous_input_over_one:
  assumes "current_input fw = Suc (Suc i)" and "Suc (Suc i) < length (inputs fw)"
    and "is_dummy (einput (inputs fw ! Suc i))"
    and "\<not> is_dummy (einput (inputs fw ! Suc (Suc i)))"
    and "renderable (einput (inputs fw ! Suc (Suc i)))"
    and "renderable (einput (inputs fw ! i))"
  shows "go_to_previous_input fw =
           Done (fw\<lparr>current_input := i, inputs := recolor i 13 (recolor (Suc (Suc i)) 14 (inputs fw))\<rparr>)"
proof -
  let ?inps1 = "recolor (Suc (Suc i)) 14 (inputs fw)"
  have ne: "inputs fw \<noteq> []" using assms(2) by auto
  have s1: "set_input_color (Suc (Suc i)) 14 fw = Done (fw\<lparr>inputs := ?inps1\<rparr>)"
    using assms(2,5) by (simp add: set_input_color_renderable)
  have "prev_jump ?inps1 (Suc i) 0 = prev_jump ?inps1 (Suc i) (Suc 0)"
    using assms(2,3) by (intro prev_jump_step) simp_all
  also have "\<dots> = Inr (Suc 0)"
  proof (cases "Suc 0 < Suc i")
    case True
    show ?thesis using assms(2,4) by (intro prev_jump_stop) simp_all
  next
    case False
    then show ?thesis by (rule prev_jump_end)
  qed
  finally have pj: "prev_jump ?inps1 (Suc i) 0 = Inr (Suc 0)" .
  have s2: "set_input_color i 13 (fw\<lparr>inputs := ?inps1, current_input := i\<rparr>)
      = Done (fw\<lparr>inputs := ?inps1, current_input := i\<rparr>\<lparr>inputs := recolor i 13 ?inps1\<rparr>)"
    using assms(2,6) by (simp add: set_input_color_renderable)
  show ?thesis
    using ne assms(1,2,4)
    by (simp add: go_to_previous_input_def s1 pj py_index_def Let_def s2)
qed

text \<open>
  C2, as stated, fails: in a form of two text fields the focus reaches index 1, which
  is not inert; there \<^verbatim>\<open>go_to_next_input\<close> returns without moving (the focus is on the
  last widget) and \<^verbatim>\<open>go_to_previous_input\<close> then moves the focus to index 0.
\<close>

theorem round_trip_fails_at_last:
  "FormWin_init two_texts_form = Inr two_texts_fw
   \<and> current_input (state_of (go_to_next_input two_texts_fw)) = 1
   \<and> \<not> is_dummy (einput (inputs (state_of (go_to_next_input two_texts_fw)) ! 1))
   \<and> go_to_next_input (state_of (go_to_next_input two_texts_fw))
        = Done (state_of (go_to_next_input two_texts_fw))
   \<and> returns (go_to_previous_input (state_of (go_to_next_input two_texts_fw)))
   \<and> current_input (state_of (go_to_previous_input (state_of (go_to_next_input two_texts_fw)))) = 0"
  by (simp add: FormWin_init_def two_texts_form_def two_texts_fw_def example_form_def example_field_def
      make_entry_def input_classes_def getValue_def go_to_next_input_def go_to_previous_input_def
      py_index_def set_input_color_def set_color_def Let_def next_jump.simps prev_jump.simps)

text \<open>
  C2, amended. When the focus is on a widget that is not inert and not the last one,
  the next widget that is not inert comes right after it or after one inert widget, and
  every widget can be drawn, then \<^verbatim>\<open>go_to_next_input\<close> returns with the focus moved
  forward, \<^verbatim>\<open>go_to_previous_input\<close> returns after it, and the focus index is the
  original one.
\<close>

theorem advance_retreat_round_trip:
  assumes "Suc (current_input fw) < length (inputs fw)"
    and "\<not> is_dummy (einput (inputs fw ! current_input fw))"
    and "\<not> is_dummy (einput (inputs fw ! Suc (current_input fw)))
         \<or> (Suc (Suc (current_input fw)) < length (inputs fw)
            \<and> \<not> is_dummy (einput (inputs fw ! Suc (Suc (current_input fw)))))"
    and "\<forall>e \<in> set (inputs fw). renderable (einput e)"
  shows "returns (go_to_next_input fw)
       \<and> current_input fw < current_input (state_of (go_to_next_input fw))
       \<and> returns (go_to_previous_input (state_of (go_to_next_input fw)))
       \<and> current_input (state_of (go_to_previous_input (state_of (go_to_next_input fw))))
            = current_input fw"
proof -
  let ?i = "current_input fw"
  have r: "renderable (einput (inputs fw ! j))" if "j < length (inputs fw)" for j
    using assms(4) that by (metis nth_mem)
  show ?thesis
  proof (cases "is_dummy (einput (inputs fw ! Suc ?i))")
    case False
    let ?fw1 = "fw\<lparr>current_input := Suc ?i, inputs := recolor (Suc ?i) 13 (recolor ?i 14 (inputs fw))\<rparr>"
    have a: "go_to_next_input fw = Done ?fw1"
      using assms(1) False r [of ?i] r [of "Suc ?i"]
      by (intro go_to_next_input_lands) (auto simp: less_Suc_eq)
    have b: "go_to_previous_input ?fw1 =
        Done (?fw1\<lparr>current_input := ?i, inputs := recolor ?i 13 (recolor (Suc ?i) 14 (inputs ?fw1))\<rparr>)"
      using assms(1,2) r [of ?i] r [of "Suc ?i"]
      by (intro go_to_previous_input_direct) simp_all
    show ?thesis by (simp add: a b)
  next
    case True
    with assms(3) have l: "Suc (Suc ?i) < length (inputs fw)"
      and n: "\<not> is_dummy (einput (inputs fw ! Suc (Suc ?i)))" by auto
    let ?fw1 = "fw\<lparr>current_input := Suc (Suc ?i),
                    inputs := recolor (Suc (Suc ?i)) 13 (recolor ?i 14 (inputs fw))\<rparr>"
    have d: "\<forall>j. ?i < j \<and> j < Suc (Suc ?i) \<longrightarrow> is_dummy (einput (inputs fw ! j))"
    proof (intro allI impI)
      fix j assume "?i < j \<and> j < Suc (Suc ?i)"
      then have "j = Suc ?i" by simp
      with True show "is_dummy (einput (inputs fw ! j))" by simp
    qed
    have a: "go_to_next_input fw = Done ?fw1"
      using l n d r [of ?i] r [of "Suc (Suc ?i)"]
      by (intro go_to_next_input_lands) simp_all
    have b: "go_to_previous_input ?fw1 =
        Done (?fw1\<lparr>current_input := ?i,
                    inputs := recolor ?i 13 (recolor (Suc (Suc ?i)) 14 (inputs ?fw1))\<rparr>)"
      using l n True r [of ?i] r [of "Suc (Suc ?i)"]
      by (intro go_to_previous_input_over_one) simp_all
    show ?thesis by (simp add: a b)
  qed
qed


text \<open>
  In the form with a text field, a fixed field and a text field the focus goes from
  index 0 over the inert widget to index 2 and back to index 0.
\<close>

theorem advance_retreat_round_trip_witness:
  "FormWin_init text_fixed_text_form = Inr text_fixed_text_fw
   \<and> Suc (current_input text_fixed_text_fw) < length (inputs text_fixed_text_fw)
   \<and> \<not> is_dummy (einput (inputs text_fixed_text_fw ! current_input text_fixed_text_fw))
   \<and> is_dummy (einput (inputs text_fixed_text_fw ! Suc (current_input text_fixed_text_fw)))
   \<and> list_all (\<lambda>e. renderable (einput e)) (inputs text_fixed_text_fw)
   \<and> current_input (state_of (go_to_next_input text_fixed_text_fw)) = 2
   \<and> returns (go_to_previous_input (state_of (go_to_next_input text_fixed_text_fw)))
   \<and> current_input (state_of (go_to_previous_input (state_of (go_to_next_input text_fixed_text_fw)))) = 0"
proof -
  have i: "FormWin_init text_fixed_text_form = Inr text_fixed_text_fw"
    by (simp add: FormWin_init_def text_fixed_text_form_def text_fixed_text_fw_def example_form_def
        example_field_def make_entry_def input_classes_def getValue_def)
  have c: "current_input text_fixed_text_fw = 0"
    by (simp add: text_fixed_text_fw_def)
  have h1: "Suc (current_input text_fixed_text_fw) < length (inputs text_fixed_text_fw)"
    by (simp add: text_fixed_text_fw_def)
  have h2: "\<not> is_dummy (einput (inputs text_fixed_text_fw ! current_input text_fixed_text_fw))"
    by (simp add: text_fixed_text_fw_def)
  have d: "is_dummy (einput (inputs text_fixed_text_fw ! Suc (current_input text_fixed_text_fw)))"
    by (simp add: text_fixed_text_fw_def)
  have h3: "\<not> is_dummy (einput (inputs text_fixed_text_fw ! Suc (current_input text_fixed_text_fw)))
         \<or> (Suc (Suc (current_input text_fixed_text_fw)) < length (inputs text_fixed_text_fw)
            \<and> \<not> is_dummy (einput (inputs text_fixed_text_fw ! Suc (Suc (current_input text_fixed_text_fw)))))"
    by (simp add: text_fixed_text_fw_def)
  have h4: "\<forall>e \<in> set (inputs text_fixed_text_fw). renderable (einput e)"
    by (simp add: text_fixed_text_fw_def)
  have n: "current_input (state_of (go_to_next_input text_fixed_text_fw)) = 2"
    by (simp add: text_fixed_text_fw_def go_to_next_input_def py_index_def set_input_color_def
        set_color_def Let_def next_jump.simps)
  have l: "list_all (\<lambda>e. renderable (einput e)) (inputs text_fixed_text_fw)"
    by (simp add: text_fixed_text_fw_def)
  from advance_retreat_round_trip [OF h1 h2 h3 h4] i c h1 h2 d l n show ?thesis by simp
qed


subsection \<open>Further traces of the backward scan\<close>

text \<open>
  With two fixed fields between two text fields, the focus goes forward from index 0 to
  index 3, and \<^verbatim>\<open>go_to_previous_input\<close> then puts it on the inert widget at index 1.
\<close>

lemma retreat_lands_on_inert:
  "\<exists>fw0 fw1 fw2. FormWin_init (fixed_run_form ''text-single'') = Inr fw0
     \<and> go_to_next_input fw0 = Done fw1 \<and> current_input fw1 = 3
     \<and> go_to_previous_input fw1 = Done fw2 \<and> current_input fw2 = 1
     \<and> is_dummy (einput (inputs fw2 ! 1))"
  by (simp add: FormWin_init_def fixed_run_form_def example_form_def example_field_def
      make_entry_def input_classes_def getValue_def go_to_next_input_def go_to_previous_input_def
      py_index_def set_input_color_def set_color_def Let_def next_jump.simps prev_jump.simps)

text \<open>
  With three fixed fields after a text field, three calls of \<^verbatim>\<open>go_to_next_input\<close>
  leave the focus at index 3, and \<^verbatim>\<open>go_to_previous_input\<close> then reads past the end
  of the widget list.
\<close>

lemma retreat_raises:
  "\<exists>fw0 fw1 fw2 fw3 fw4. FormWin_init (fixed_run_form ''fixed'') = Inr fw0
     \<and> go_to_next_input fw0 = Done fw1 \<and> go_to_next_input fw1 = Done fw2
     \<and> go_to_next_input fw2 = Done fw3 \<and> current_input fw3 = 3
     \<and> go_to_previous_input fw3 = Raised IndexError fw4"
  by (simp add: FormWin_init_def fixed_run_form_def example_form_def example_field_def
      make_entry_def input_classes_def getValue_def go_to_next_input_def go_to_previous_input_def
      py_index_def set_input_color_def set_color_def Let_def next_jump.simps prev_jump.simps)

section \<open>Submit\<close>

lemma reply_returns:
  "\<not> is_dummy w \<Longrightarrow> has_answer w \<Longrightarrow> reply w fs = Done (state_of (reply w fs))"
  by (cases "win w") (simp_all add: Let_def py_index_def)

lemma reply_length [simp]: "length (state_of (reply w fs)) = length fs"
  by (cases "win w") (simp_all add: Let_def py_index_def)

lemma reply_other: "j \<noteq> field_ref w \<Longrightarrow> state_of (reply w fs) ! j = fs ! j"
  by (cases "win w") (simp_all add: Let_def py_index_def)

lemma reply_loop_replied:
  "list_all (\<lambda>e. is_dummy (einput e) \<or> has_answer (einput e)) inps
   \<Longrightarrow> reply_loop inps fs = Done (replied inps fs)"
proof (induction inps arbitrary: fs)
  case Nil
  show ?case by (simp add: replied_def)
next
  case (Cons inp rest)
  show ?case
  proof (cases "is_dummy (einput inp)")
    case True
    with Cons show ?thesis by (simp add: replied_def)
  next
    case False
    with Cons.prems have "has_answer (einput inp)" by simp
    with False have "reply (einput inp) fs = Done (state_of (reply (einput inp) fs))"
      by (rule reply_returns)
    then obtain fs' where r: "reply (einput inp) fs = Done fs'" ..
    have "reply_loop (inp # rest) fs = reply_loop rest (state_of (reply (einput inp) fs))"
      using False by (simp add: r del: reply.simps)
    also have "\<dots> = Done (replied rest (state_of (reply (einput inp) fs)))"
      using Cons.prems by (intro Cons.IH) simp
    also have "replied rest (state_of (reply (einput inp) fs)) = replied (inp # rest) fs"
      using False by (simp add: replied_def del: reply.simps)
    finally show ?thesis .
  qed
qed

lemma replied_length [simp]: "length (replied inps fs) = length fs"
  unfolding replied_def
  by (induction inps arbitrary: fs) (simp_all del: reply.simps is_dummy.simps)

lemma replied_other:
  "j \<notin> set (map (\<lambda>e. field_ref (einput e)) inps) \<Longrightarrow> replied inps fs ! j = fs ! j"
  unfolding replied_def
  by (induction inps arbitrary: fs) (simp_all add: reply_other del: reply.simps is_dummy.simps)

lemma visible_refs_set:
  "j \<in> set (visible_refs r fs) \<longleftrightarrow>
     r \<le> j \<and> j < r + length fs \<and> ftype (snd (fs ! (j - r))) \<noteq> ''hidden''"
proof (induction fs arbitrary: r)
  case Nil
  show ?case by simp
next
  case (Cons a rest)
  obtain name f where a: "a = (name, f)" by (cases a)
  have n: "(a # rest) ! (j - r) = rest ! (j - Suc r)" if "Suc r \<le> j"
    using that by (simp add: Suc_diff_le)
  show ?case
    unfolding a using Cons.IH [of "Suc r"] n
    by (cases "j = r") (auto simp: a)
qed


subsection \<open>What navigation and keys leave alone\<close>

lemma map_update_same: "f x = f (xs ! i) \<Longrightarrow> map f (xs[i := x]) = map f xs"
  by (cases "i < length xs") (simp_all add: map_update list_update_same_conv list_update_beyond not_less)

lemma set_color_state: "state_of (set_color c w) = w\<lparr>color := c\<rparr>"
  by (cases "win w") (simp_all add: set_color_def)

lemma set_input_color_same: "same_widgets fw (state_of (set_input_color i c fw))"
proof (cases "i < length (inputs fw)")
  case False
  then show ?thesis by (simp add: set_input_color_def py_index_def same_widgets_def)
next
  case True
  have "state_of (set_input_color i c fw) =
      fw\<lparr>inputs := (inputs fw)[i := (inputs fw ! i)\<lparr>einput := state_of (set_color c (einput (inputs fw ! i)))\<rparr>]\<rparr>"
    using True by (simp add: set_input_color_def py_index_def split: outcome.splits)
  then show ?thesis
    by (simp add: same_widgets_def set_color_state map_update_same)
qed

lemma set_input_color_keeps:
  "fw_form (state_of (set_input_color i c fw)) = fw_form fw"
  "map (\<lambda>e. field_ref (einput e)) (inputs (state_of (set_input_color i c fw)))
     = map (\<lambda>e. field_ref (einput e)) (inputs fw)"
  "map (\<lambda>e. win (einput e)) (inputs (state_of (set_input_color i c fw)))
     = map (\<lambda>e. win (einput e)) (inputs fw)"
  using set_input_color_same [of fw i c] by (simp_all add: same_widgets_def)

lemma set_input_color_Done: "set_input_color i c fw = Done fw1 \<Longrightarrow> same_widgets fw fw1"
  using set_input_color_same [of fw i c] by simp

lemma set_input_color_Raised: "set_input_color i c fw = Raised e fw1 \<Longrightarrow> same_widgets fw fw1"
  using set_input_color_same [of fw i c] by simp

lemma go_to_next_input_same: "same_widgets fw (state_of (go_to_next_input fw))"
  unfolding go_to_next_input_def Let_def
  by (auto split: outcome.splits sum.splits
      dest!: set_input_color_Done set_input_color_Raised
      simp: same_widgets_def set_input_color_keeps)

lemma go_to_previous_input_same: "same_widgets fw (state_of (go_to_previous_input fw))"
  unfolding go_to_previous_input_def Let_def
  by (auto split: outcome.splits sum.splits
      dest!: set_input_color_Done set_input_color_Raised
      simp: same_widgets_def set_input_color_keeps)


lemma do_command_field_ref: "field_ref (state_of (do_command edit key w)) = field_ref w"
  by (cases "win w") (auto simp: py_index_def split: prod.splits)

lemma do_command_ready:
  assumes "is_dummy w \<or> has_answer w"
  shows "is_dummy (state_of (do_command edit key w)) \<or> has_answer (state_of (do_command edit key w))"
  using assms
  by (cases "win w") (auto simp: py_index_def split: prod.splits)

lemma FormWin_on_input_state:
  "state_of (FormWin_on_input edit key fw) =
     (if inputs fw = [] \<or> \<not> current_input fw < length (inputs fw) then fw
      else fw\<lparr>inputs := (inputs fw)[current_input fw :=
             (inputs fw ! current_input fw)\<lparr>einput :=
                state_of (do_command edit key (einput (inputs fw ! current_input fw)))\<rparr>]\<rparr>)"
  by (simp add: FormWin_on_input_def py_index_def split: outcome.splits del: do_command.simps)

lemma FormWin_on_input_keeps:
  "fw_form (state_of (FormWin_on_input edit key fw)) = fw_form fw"
  "map (\<lambda>e. field_ref (einput e)) (inputs (state_of (FormWin_on_input edit key fw)))
     = map (\<lambda>e. field_ref (einput e)) (inputs fw)"
  by (simp_all add: FormWin_on_input_state map_update_same do_command_field_ref
      del: do_command.simps)

lemma list_all_update: "list_all P xs \<Longrightarrow> P x \<Longrightarrow> list_all P (xs[i := x])"
  by (cases "i < length xs") (auto simp: list_all_length nth_list_update)

lemma FormWin_on_input_ready:
  assumes "answers_ready fw"
  shows "answers_ready (state_of (FormWin_on_input edit key fw))"
proof (cases "inputs fw = [] \<or> \<not> current_input fw < length (inputs fw)")
  case True
  with assms show ?thesis by (simp add: FormWin_on_input_state del: do_command.simps)
next
  case False
  let ?w = "einput (inputs fw ! current_input fw)"
  from False assms have "is_dummy ?w \<or> has_answer ?w"
    by (simp add: answers_ready_def list_all_length del: is_dummy.simps has_answer.simps)
  then have "is_dummy (state_of (do_command edit key ?w)) \<or> has_answer (state_of (do_command edit key ?w))"
    by (rule do_command_ready)
  with False assms show ?thesis
    by (simp add: FormWin_on_input_state answers_ready_def list_all_update
        del: do_command.simps is_dummy.simps has_answer.simps)
qed

lemma same_widgets_session_inv: "same_widgets fw fw' \<Longrightarrow> session_inv fw \<Longrightarrow> session_inv fw'"
  by (simp add: same_widgets_def session_inv_def)

lemma answers_ready_win:
  "answers_ready fw \<longleftrightarrow>
     list_all (\<lambda>k. case k of ListSingleWin options val_pos \<Rightarrow> val_pos < length options | _ \<Rightarrow> True)
       (map (\<lambda>e. win (einput e)) (inputs fw))"
  unfolding answers_ready_def list_all_iff
  by (auto split: winput.splits)

lemma same_widgets_ready: "same_widgets fw fw' \<Longrightarrow> answers_ready fw \<Longrightarrow> answers_ready fw'"
  by (simp add: same_widgets_def answers_ready_win)

subsection \<open>What construction establishes\<close>

lemma single_pos_bound:
  "single_pos v options i val_pos = val_pos
   \<or> (i \<le> single_pos v options i val_pos \<and> single_pos v options i val_pos < i + length options)"
proof (induction options arbitrary: i val_pos)
  case Nil
  show ?case by simp
next
  case (Cons option rest)
  show ?case
    using Cons [of "Suc i" "if v = PStr (ovalue option) then i else val_pos"]
    by (auto split: if_splits)
qed

lemma construct_field_ref: "construct c r f = Inr w \<Longrightarrow> field_ref w = r"
  by (cases c) (auto simp: Let_def split: sum.splits)

lemma construct_ready:
  assumes "construct c r f = Inr w" and "c = CListSingleWin \<longrightarrow> getOptions f \<noteq> []"
  shows "is_dummy w \<or> has_answer w"
proof (cases c)
  case CListSingleWin
  with assms(2) have "0 < length (getOptions f)" by simp
  with single_pos_bound [of "getValue f" "getOptions f" 0 0]
  have "single_pos (getValue f) (getOptions f) 0 0 < length (getOptions f)" by auto
  with assms(1) CListSingleWin show ?thesis by auto
qed (use assms(1) in \<open>auto simp: Let_def split: sum.splits\<close>)

lemma input_classes_list_single:
  "input_classes t = Some CListSingleWin \<longleftrightarrow> t = ''list-single''"
  by (auto simp: input_classes_def split: if_splits)

lemma make_entry_facts:
  assumes "make_entry r f = Inr (f', ent)"
  shows "field_ref (einput ent) = r" and "ftype f' = ftype f"
    and "(ftype f = ''list-single'' \<longrightarrow> getOptions f \<noteq> [])
         \<longrightarrow> is_dummy (einput ent) \<or> has_answer (einput ent)"
proof -
  obtain c where c: "c = (case input_classes (ftype f) of Some c \<Rightarrow> c | None \<Rightarrow> CTextSingleWin)"
    by simp
  let ?f = "case input_classes (ftype f) of Some c \<Rightarrow> f | None \<Rightarrow> setValue (PStr (ftype f)) f"
  from assms have k: "construct c r ?f = Inr (einput ent)" and f': "f' = ?f"
    by (auto simp: make_entry_def c Let_def split: option.splits sum.splits
        simp del: construct.simps)
  from k show "field_ref (einput ent) = r" by (rule construct_field_ref)
  from f' show "ftype f' = ftype f" by (simp add: setValue_def split: option.splits)
  show "(ftype f = ''list-single'' \<longrightarrow> getOptions f \<noteq> [])
         \<longrightarrow> is_dummy (einput ent) \<or> has_answer (einput ent)"
  proof
    assume wf: "ftype f = ''list-single'' \<longrightarrow> getOptions f \<noteq> []"
    have "c = CListSingleWin \<longrightarrow> getOptions ?f \<noteq> []"
    proof
      assume "c = CListSingleWin"
      with c have "input_classes (ftype f) = Some CListSingleWin"
        by (auto split: option.splits)
      then have "ftype f = ''list-single''" by (simp add: input_classes_list_single)
      with wf \<open>input_classes (ftype f) = Some CListSingleWin\<close>
      show "getOptions ?f \<noteq> []" by simp
    qed
    with k show "is_dummy (einput ent) \<or> has_answer (einput ent)" by (rule construct_ready)
  qed
qed


lemma init_loop_facts:
  assumes "init_loop r fs = Inr (fs', es)"
  shows "map (\<lambda>e. field_ref (einput e)) es = visible_refs r fs'"
    and "list_all (\<lambda>(name, f). ftype f = ''list-single'' \<longrightarrow> getOptions f \<noteq> []) fs
         \<longrightarrow> list_all (\<lambda>e. is_dummy (einput e) \<or> has_answer (einput e)) es"
  using assms
proof (induction fs arbitrary: r fs' es)
  case Nil
  {
    case 1 then show ?case by simp
  next
    case 2 then show ?case by simp
  }
next
  case (Cons a rest)
  obtain name f where a: "a = (name, f)" by (cases a)
  {
    case 1
    show ?case
    proof (cases "ftype f = ''hidden''")
      case True
      with 1 obtain fs1 where l: "init_loop (Suc r) rest = Inr (fs1, es)" and f: "fs' = (name, f) # fs1"
        by (auto simp: a split: sum.splits)
      from Cons.IH(1) [OF l] f True show ?thesis by simp
    next
      case False
      with 1 obtain f1 ent fs1 es1 where m: "make_entry r f = Inr (f1, ent)"
        and l: "init_loop (Suc r) rest = Inr (fs1, es1)"
        and f: "fs' = (name, f1) # fs1" and e: "es = ent # es1"
        by (auto simp: a split: sum.splits)
      from make_entry_facts(1,2) [OF m] False Cons.IH(1) [OF l] f e show ?thesis by simp
    qed
  next
    case 2
    show ?case
    proof (cases "ftype f = ''hidden''")
      case True
      with 2 obtain fs1 where l: "init_loop (Suc r) rest = Inr (fs1, es)"
        by (auto simp: a split: sum.splits)
      from Cons.IH(2) [OF l] show ?thesis by (simp add: a)
    next
      case False
      with 2 obtain f1 ent fs1 es1 where m: "make_entry r f = Inr (f1, ent)"
        and l: "init_loop (Suc r) rest = Inr (fs1, es1)" and e: "es = ent # es1"
        by (auto simp: a split: sum.splits)
      from make_entry_facts(3) [OF m] Cons.IH(2) [OF l] e show ?thesis
        by (simp add: a del: is_dummy.simps has_answer.simps)
    qed
  }
qed

lemma FormWin_init_session_inv: "FormWin_init frm = Inr fw \<Longrightarrow> session_inv fw"
  by (auto simp: FormWin_init_def session_inv_def init_loop_facts(1) split: sum.splits)

lemma FormWin_init_ready:
  "FormWin_init frm = Inr fw \<Longrightarrow> well_formed frm \<Longrightarrow> answers_ready fw"
  using init_loop_facts(2)
  by (fastforce simp: FormWin_init_def answers_ready_def well_formed_def split: sum.splits)

text \<open>Both conditions hold in every state of a session on a well-formed form.\<close>

lemma session_state_inv:
  assumes "session_state frm fw"
  shows "session_inv fw" and "well_formed frm \<longrightarrow> answers_ready fw"
  using assms
proof (induction rule: session_state.induct)
  case (constructed fw)
  {
    case 1 from constructed show ?case by (rule FormWin_init_session_inv)
  next
    case 2 from constructed show ?case by (simp add: FormWin_init_ready)
  }
next
  case (after_next fw)
  {
    case 1 from go_to_next_input_same after_next(2) show ?case by (rule same_widgets_session_inv)
  next
    case 2 from after_next(3) show ?case using same_widgets_ready [OF go_to_next_input_same] by blast
  }
next
  case (after_previous fw)
  {
    case 1 from go_to_previous_input_same after_previous(2) show ?case by (rule same_widgets_session_inv)
  next
    case 2 from after_previous(3) show ?case
      using same_widgets_ready [OF go_to_previous_input_same] by blast
  }
next
  case (after_key fw edit key)
  {
    case 1 from after_key(2) show ?case by (simp add: session_inv_def FormWin_on_input_keeps)
  next
    case 2 from after_key(3) show ?case using FormWin_on_input_ready by blast
  }
qed


subsection \<open>The submit command\<close>

lemma FormWin_reply_ready:
  assumes "answers_ready fw"
  shows "FormWin_reply fw =
           Done (fw\<lparr>fw_form := (fw_form fw)\<lparr>form_fields := replied (inputs fw) (form_fields (fw_form fw)),
                                               form_title := [], form_instructions := []\<rparr>\<rparr>)"
  using assms
  by (simp add: FormWin_reply_def answers_ready_def reply_loop_replied
      del: is_dummy.simps has_answer.simps)

text \<open>
  C5, as stated, fails: on the form whose only field is a list-single field with no
  options, the window is built, but the submit command raises \<^verbatim>\<open>IndexError\<close> in the
  reply of the widget; the title and instructions stay and \<^verbatim>\<open>on_send\<close> is not called.
\<close>

theorem on_send_raises_without_options:
  "FormWin_init empty_single_form = Inr empty_single_fw
   \<and> on_send submit_type \<lparr>form_win = empty_single_fw, calls = []\<rparr>
       = Raised IndexError (state_of (on_send submit_type \<lparr>form_win = empty_single_fw, calls = []\<rparr>))
   \<and> calls (state_of (on_send submit_type \<lparr>form_win = empty_single_fw, calls = []\<rparr>)) = []
   \<and> form_title (fw_form (form_win (state_of (on_send submit_type \<lparr>form_win = empty_single_fw, calls = []\<rparr>))))
       = ''title''"
  by (simp add: FormWin_init_def empty_single_form_def empty_single_fw_def empty_single_field_def
      empty_single_widget_def example_form_def example_field_def make_entry_def input_classes_def
      getValue_def getOptions_def on_send_def FormWin_reply_def Let_def py_index_def submit_type_def)

text \<open>
  C5, amended. In every state of a session on a form whose list-single fields have
  options, the submit command returns. It has passed the form to the library's own reply, let every
  widget that is not inert reply in focus order, emptied title and instructions, and
  then called \<^verbatim>\<open>on_send\<close> with the form so updated. No widget refers to a hidden
  field, and the hidden fields are as they were.
\<close>

theorem on_send_spec:
  assumes "well_formed frm" and "session_state frm (form_win t)"
  shows "on_send lib_reply t =
           Done (t\<lparr>form_win := (form_win t)\<lparr>fw_form := (fw_form (form_win t))
                      \<lparr>form_type := lib_reply (form_type (fw_form (form_win t))),
                       form_fields := replied (inputs (form_win t)) (form_fields (fw_form (form_win t))),
                       form_title := [], form_instructions := []\<rparr>\<rparr>,
                    calls := calls t @ [OnSend ((fw_form (form_win t))
                      \<lparr>form_type := lib_reply (form_type (fw_form (form_win t))),
                       form_fields := replied (inputs (form_win t)) (form_fields (fw_form (form_win t))),
                       form_title := [], form_instructions := []\<rparr>)]\<rparr>)
       \<and> (\<forall>e \<in> set (inputs (form_win t)).
            field_ref (einput e) < length (form_fields (fw_form (form_win t)))
            \<and> ftype (snd (form_fields (fw_form (form_win t)) ! field_ref (einput e))) \<noteq> ''hidden'')
       \<and> (\<forall>j < length (form_fields (fw_form (form_win t))).
            ftype (snd (form_fields (fw_form (form_win t)) ! j)) = ''hidden''
            \<longrightarrow> replied (inputs (form_win t)) (form_fields (fw_form (form_win t))) ! j
                 = form_fields (fw_form (form_win t)) ! j)"
proof -
  let ?fw = "form_win t"
  let ?fs = "form_fields (fw_form ?fw)"
  from assms have inv: "session_inv ?fw" and rdy: "answers_ready ?fw"
    by (simp_all add: session_state_inv)
  let ?sent = "?fw\<lparr>fw_form := (fw_form ?fw)\<lparr>form_type := lib_reply (form_type (fw_form ?fw))\<rparr>\<rparr>"
  have rdy0: "answers_ready ?sent" using rdy by (simp add: answers_ready_def)
  have a: "on_send lib_reply t =
           Done (t\<lparr>form_win := ?fw\<lparr>fw_form := (fw_form ?fw)
                      \<lparr>form_type := lib_reply (form_type (fw_form ?fw)),
                       form_fields := replied (inputs ?fw) ?fs,
                       form_title := [], form_instructions := []\<rparr>\<rparr>,
                    calls := calls t @ [OnSend ((fw_form ?fw)
                      \<lparr>form_type := lib_reply (form_type (fw_form ?fw)),
                       form_fields := replied (inputs ?fw) ?fs,
                       form_title := [], form_instructions := []\<rparr>)]\<rparr>)"
    unfolding on_send_def Let_def by (subst FormWin_reply_ready [OF rdy0]) simp
  have refs: "set (map (\<lambda>e. field_ref (einput e)) (inputs ?fw)) = set (visible_refs 0 ?fs)"
    using inv by (simp add: session_inv_def)
  have b: "\<forall>e \<in> set (inputs ?fw). field_ref (einput e) < length ?fs
            \<and> ftype (snd (?fs ! field_ref (einput e))) \<noteq> ''hidden''"
  proof
    fix e assume "e \<in> set (inputs ?fw)"
    then have "field_ref (einput e) \<in> set (visible_refs 0 ?fs)"
      using refs by auto
    then show "field_ref (einput e) < length ?fs
            \<and> ftype (snd (?fs ! field_ref (einput e))) \<noteq> ''hidden''"
      by (simp add: visible_refs_set)
  qed
  have c: "\<forall>j < length ?fs. ftype (snd (?fs ! j)) = ''hidden''
            \<longrightarrow> replied (inputs ?fw) ?fs ! j = ?fs ! j"
  proof (intro allI impI)
    fix j assume "j < length ?fs" and h: "ftype (snd (?fs ! j)) = ''hidden''"
    have "j \<notin> set (visible_refs 0 ?fs)" using h by (simp add: visible_refs_set)
    then have "j \<notin> set (map (\<lambda>e. field_ref (einput e)) (inputs ?fw))" using refs by simp
    then show "replied (inputs ?fw) ?fs ! j = ?fs ! j" by (rule replied_other)
  qed
  from a b c show ?thesis by blast
qed

text \<open>
  The form with a hidden field, a fixed field and a text-single field seeded with
  hello: the window has two widgets, on the fixed and on the text field; submit calls
  \<^verbatim>\<open>on_send\<close> once, with the form in which only the text field was answered.
\<close>

theorem on_send_spec_witness:
  "well_formed hello_form \<and> session_state hello_form hello_fw
   \<and> returns (on_send submit_type \<lparr>form_win = hello_fw, calls = []\<rparr>)
   \<and> calls (state_of (on_send submit_type \<lparr>form_win = hello_fw, calls = []\<rparr>))
       = [OnSend \<lparr>form_title = [], form_instructions = [], form_type = ''submit'',
                  form_fields =
                    [(''secret'', example_field ''hidden'' (PStr ''h'') []),
                     (''note'', example_field ''fixed'' (PStr ''section'') []),
                     (''name'', (example_field ''text-single'' (PStr ''hello'') [])\<lparr>flabel := []\<rparr>)]\<rparr>]"
proof -
  have w: "well_formed hello_form"
    by (simp add: well_formed_def hello_form_def example_form_def example_field_def)
  have i: "FormWin_init hello_form = Inr hello_fw"
    by (simp add: FormWin_init_def hello_form_def hello_fw_def example_form_def example_field_def
        make_entry_def input_classes_def getValue_def)
  then have s: "session_state hello_form (form_win \<lparr>form_win = hello_fw, calls = []\<rparr>)"
    by (simp add: session_state.constructed)
  have r: "replied (inputs hello_fw) (form_fields (fw_form hello_fw))
      = [(''secret'', example_field ''hidden'' (PStr ''h'') []),
         (''note'', example_field ''fixed'' (PStr ''section'') []),
         (''name'', (example_field ''text-single'' (PStr ''hello'') [])\<lparr>flabel := []\<rparr>)]"
    by (simp add: replied_def hello_fw_def hello_form_def example_form_def example_field_def
        upd_field_def set_label_def setAnswer_def)
  have f: "fw_form hello_fw = hello_form" by (simp add: hello_fw_def)
  from on_send_spec [OF w s, of submit_type]
  have e: "on_send submit_type \<lparr>form_win = hello_fw, calls = []\<rparr> =
      Done (\<lparr>form_win = hello_fw, calls = []\<rparr>\<lparr>form_win := hello_fw\<lparr>fw_form := (fw_form hello_fw)
                      \<lparr>form_type := submit_type (form_type (fw_form hello_fw)),
                       form_fields := replied (inputs hello_fw) (form_fields (fw_form hello_fw)),
                       form_title := [], form_instructions := []\<rparr>\<rparr>,
                    calls := [] @ [OnSend ((fw_form hello_fw)
                      \<lparr>form_type := submit_type (form_type (fw_form hello_fw)),
                       form_fields := replied (inputs hello_fw) (form_fields (fw_form hello_fw)),
                       form_title := [], form_instructions := []\<rparr>)]\<rparr>)"
    by simp
  show ?thesis
    unfolding e r using w i
    by (simp add: f hello_form_def example_form_def submit_type_def session_state.constructed)
qed

end
